theory Spec2Isabelle
  imports Complex_Main
begin

section \<open>SeededRandom: the multiplicative congruential generator\<close>

text \<open>
  \<^verbatim>\<open>src/core/SeededRandom.js\<close>. The generator object holds the original seed and the
  current state. The state is modelled as an integer; every seed the game uses is one
  (\<^verbatim>\<open>WORLD_SEED = 42069\<close>), and for a state of magnitude below \<open>2^31\<close> the product
  \<^verbatim>\<open>a * this.current\<close> stays below \<open>2^53\<close>, so the double arithmetic of the
  recurrence is exact there. The values returned by \<^verbatim>\<open>next\<close> and \<^verbatim>\<open>float\<close> are
  exact reals, where the source computes in doubles. The two agree on the integer
  returned by \<^verbatim>\<open>int\<close> as long as the double sum \<^verbatim>\<open>min + next() * (max + 1 - min)\<close>
  does not round across an integer: this holds for \<^verbatim>\<open>min = 0\<close> (the case of
  \<^verbatim>\<open>pick\<close>) and for small bounds, and fails for bounds from \<open>2^22\<close> on, where the
  source can return \<^verbatim>\<open>max + 1\<close>. States beyond \<open>2^53 / 48271\<close> in magnitude, on
  which the source's product is inexact, are outside what the model describes.
\<close>

record SeededRandom =
  seed :: int
  current :: int

text \<open>JavaScript's \<^verbatim>\<open>%\<close> truncates: the remainder has the sign of the dividend.\<close>

definition js_rem :: "int \<Rightarrow> int \<Rightarrow> int" where
  "js_rem a b = sgn a * (\<bar>a\<bar> mod \<bar>b\<bar>)"

definition lcg_a :: int where "lcg_a = 48271"
definition lcg_m :: int where "lcg_m = 2147483647"

definition SeededRandom_new :: "int \<Rightarrow> SeededRandom" where
  "SeededRandom_new s = \<lparr>seed = s, current = s\<rparr>"

definition SeededRandom_reset :: "SeededRandom \<Rightarrow> SeededRandom" where
  "SeededRandom_reset r = r\<lparr>current := seed r\<rparr>"

definition SeededRandom_next :: "SeededRandom \<Rightarrow> real \<times> SeededRandom" where
  "SeededRandom_next r =
     (let c = js_rem (lcg_a * current r) lcg_m
      in (of_int c / of_int lcg_m, r\<lparr>current := c\<rparr>))"

definition SeededRandom_float :: "SeededRandom \<Rightarrow> real \<Rightarrow> real \<Rightarrow> real \<times> SeededRandom" where
  "SeededRandom_float r mn mx =
     (let (u, r') = SeededRandom_next r in (mn + u * (mx - mn), r'))"

definition SeededRandom_int :: "SeededRandom \<Rightarrow> real \<Rightarrow> real \<Rightarrow> int \<times> SeededRandom" where
  "SeededRandom_int r mn mx =
     (let (x, r') = SeededRandom_float r mn (mx + 1) in (\<lfloor>x\<rfloor>, r'))"

definition SeededRandom_bool :: "SeededRandom \<Rightarrow> real \<Rightarrow> bool \<times> SeededRandom" where
  "SeededRandom_bool r p = (let (u, r') = SeededRandom_next r in (u < p, r'))"

text \<open>
  \<^verbatim>\<open>pick(array)\<close> returns \<^verbatim>\<open>array[this.int(0, array.length - 1)]\<close>. Reading a
  JavaScript array outside its bounds yields \<^verbatim>\<open>undefined\<close>; that outcome is \<open>None\<close>.
\<close>

definition js_index :: "'a list \<Rightarrow> int \<Rightarrow> 'a option" where
  "js_index xs i = (if 0 \<le> i \<and> i < int (length xs) then Some (xs ! nat i) else None)"

definition SeededRandom_pick :: "SeededRandom \<Rightarrow> 'a list \<Rightarrow> 'a option \<times> SeededRandom" where
  "SeededRandom_pick r array =
     (let (i, r') = SeededRandom_int r 0 (real (length array) - 1) in (js_index array i, r'))"


section \<open>Snake: genotype, phenotype, display name and price\<close>

text \<open>
  \<^verbatim>\<open>src/core/Snake.js\<close>. A genotype is a JavaScript object
  \<^verbatim>\<open>{ geneId: [allele1, allele2] }\<close>; it is modelled by the list of its entries in the
  order \<^verbatim>\<open>Object.entries\<close> yields them (keys are distinct). Nothing in the class checks
  the shape of the values, so they are arbitrary JavaScript values. Booleans and plain
  objects behave like numbers in every operation used here (an index read yields
  \<^verbatim>\<open>undefined\<close>, \<^verbatim>\<open>filter\<close> and \<^verbatim>\<open>some\<close> are not functions, and no comparison
  with a string succeeds) and have no constructor of their own.
\<close>

datatype jsval = Undefined | Null | Num int | Str string | Arr "jsval list"

datatype error = TypeError | SpeciesMismatch

text \<open>\<^verbatim>\<open>v[i]\<close>: a property read throws on \<^verbatim>\<open>null\<close> and \<^verbatim>\<open>undefined\<close> only.\<close>

fun js_get :: "jsval \<Rightarrow> nat \<Rightarrow> error + jsval" where
  "js_get Undefined i = Inl TypeError"
| "js_get Null i = Inl TypeError"
| "js_get (Num n) i = Inr Undefined"
| "js_get (Str s) i = Inr (if i < length s then Str [s ! i] else Undefined)"
| "js_get (Arr xs) i = Inr (if i < length xs then xs ! i else Undefined)"

text \<open>\<^verbatim>\<open>v.filter(p)\<close> and \<^verbatim>\<open>v.some(p)\<close> exist on arrays only; elsewhere the call throws.\<close>

fun js_filter :: "(jsval \<Rightarrow> bool) \<Rightarrow> jsval \<Rightarrow> error + jsval list" where
  "js_filter p (Arr xs) = Inr (filter p xs)"
| "js_filter p v = Inl TypeError"

fun js_some :: "(jsval \<Rightarrow> bool) \<Rightarrow> jsval \<Rightarrow> error + bool" where
  "js_some p (Arr xs) = Inr (list_ex p xs)"
| "js_some p v = Inl TypeError"

text \<open>\<^verbatim>\<open>x || d\<close> on an optional number: \<^verbatim>\<open>undefined\<close> and \<open>0\<close> are falsy.\<close>

definition js_or :: "real option \<Rightarrow> real \<Rightarrow> real" where
  "js_or v d = (case v of None \<Rightarrow> d | Some x \<Rightarrow> if x = 0 then d else x)"

fun js_join :: "string \<Rightarrow> string list \<Rightarrow> string" where
  "js_join sep [] = []"
| "js_join sep [x] = x"
| "js_join sep (x # y # ys) = x @ sep @ js_join sep (y # ys)"

text \<open>\<^verbatim>\<open>Math.round\<close> rounds to the nearest integer, ties towards \<open>+\<infinity>\<close>.\<close>

definition Math_round :: "real \<Rightarrow> int" where
  "Math_round x = \<lfloor>x + 1 / 2\<rfloor>"

subsection \<open>The catalog (\<^verbatim>\<open>morphData\<close>)\<close>

text \<open>
  The catalog is the second argument of the \<^verbatim>\<open>Snake\<close> constructor. Its tables are
  JavaScript objects, modelled by their entry lists in key order.
\<close>

record gene =
  gene_name :: string
  inheritance :: string
  rarity :: int
  superForm :: "string option"

record combo =
  combo_name :: string
  requires :: "string list"
  basePrice :: "real option"

record speciesEntry =
  commonName :: string
  species_basePrice :: "real option"
  clutchMin :: int
  clutchMax :: int

record pricingRules =
  genderMultiplier :: "(string \<times> real) list"
  rarityMultipliers :: "(int \<times> real) list"
  hetGeneBonus :: real
  provenBreederBonus :: real
  speciesMultipliers :: "(string \<times> real) list"

record morphData =
  genes :: "(string \<times> gene) list"
  comboMorphs :: "(string \<times> combo) list"
  speciesTable :: "(string \<times> speciesEntry) list"
  pricingRules :: pricingRules

record stats =
  health :: real
  fertility :: real
  clutchesProduced :: int

record snake =
  snake_id :: string
  species :: string
  sex :: string
  genotype :: "(string \<times> jsval) list"
  origin :: string
  parentIds :: "(string \<times> string) option"
  birthDate :: int
  snake_stats :: stats
  morphData :: morphData
  phenotype_cache :: "string list option"

text \<open>
  The constructor. A field missing from \<^verbatim>\<open>config\<close> is \<open>None\<close>. The \<^verbatim>\<open>||\<close> defaults
  also replace a falsy value that is present: an empty id or origin, a birth date of 0.
  The generated identifier (\<^verbatim>\<open>Date.now()\<close> and \<^verbatim>\<open>Math.random()\<close>) and the current
  time come from the environment and are parameters. The phenotype cache starts empty
  (\<^verbatim>\<open>this._phenotype = null\<close>).
\<close>

record config =
  cfg_id :: "string option"
  cfg_species :: string
  cfg_sex :: string
  cfg_genotype :: "(string \<times> jsval) list option"
  cfg_origin :: "string option"
  cfg_parentIds :: "(string \<times> string) option"
  cfg_birthDate :: "int option"
  cfg_stats :: "stats option"

definition Snake :: "string \<Rightarrow> int \<Rightarrow> config \<Rightarrow> morphData \<Rightarrow> snake" where
  "Snake generatedId now cfg md =
     \<lparr>snake_id = (case cfg_id cfg of
                     Some i \<Rightarrow> if i = [] then generatedId else i
                   | None \<Rightarrow> generatedId),
      species = cfg_species cfg,
      sex = cfg_sex cfg,
      genotype = (case cfg_genotype cfg of Some g \<Rightarrow> g | None \<Rightarrow> []),
      origin = (case cfg_origin cfg of
                  Some orig \<Rightarrow> if orig = [] then ''wild'' else orig
                | None \<Rightarrow> ''wild''),
      parentIds = cfg_parentIds cfg,
      birthDate = (case cfg_birthDate cfg of
                     Some born \<Rightarrow> if born = 0 then now else born
                   | None \<Rightarrow> now),
      snake_stats = (case cfg_stats cfg of
                       Some st \<Rightarrow> st
                     | None \<Rightarrow> \<lparr>health = 100, fertility = 1, clutchesProduced = 0\<rparr>),
      morphData = md,
      phenotype_cache = None\<rparr>"

subsection \<open>getPhenotype\<close>

definition nonWild :: "jsval \<Rightarrow> bool" where
  "nonWild a = (a \<noteq> Str ''+'' \<and> a \<noteq> Str ''wild'')"

text \<open>
  One iteration of the loop over \<^verbatim>\<open>Object.entries(this.genotype)\<close>: the list
  \<^verbatim>\<open>expressed\<close> after the iteration, or the exception it throws.
\<close>

definition phenotype_step ::
    "(string \<times> gene) list \<Rightarrow> string list \<Rightarrow> string \<times> jsval \<Rightarrow> error + string list" where
  "phenotype_step gs expressed entry =
     (let geneId = fst entry; alleles = snd entry in
      case map_of gs geneId of
        None \<Rightarrow> Inr expressed
      | Some gene \<Rightarrow>
          if inheritance gene = ''recessive'' then
            (case js_get alleles 0 of
               Inl e \<Rightarrow> Inl e
             | Inr a0 \<Rightarrow>
                 if a0 = Str geneId then
                   (case js_get alleles 1 of
                      Inl e \<Rightarrow> Inl e
                    | Inr a1 \<Rightarrow> if a1 = Str geneId then Inr (expressed @ [geneId]) else Inr expressed)
                 else Inr expressed)
          else if inheritance gene = ''incompleteDominant'' then
            (case js_filter nonWild alleles of
               Inl e \<Rightarrow> Inl e
             | Inr ms \<Rightarrow>
                 let mutantCount = length ms in
                 if mutantCount = 1 then Inr (expressed @ [geneId])
                 else if mutantCount = 2 \<and> superForm gene \<noteq> None \<and> superForm gene \<noteq> Some []
                 then Inr (expressed @ [the (superForm gene)])
                 else Inr expressed)
          else if inheritance gene = ''dominant'' then
            (case js_some nonWild alleles of
               Inl e \<Rightarrow> Inl e
             | Inr b \<Rightarrow> if b then Inr (expressed @ [geneId]) else Inr expressed)
          else if inheritance gene = ''polygenic'' then
            (case js_some nonWild alleles of
               Inl e \<Rightarrow> Inl e
             | Inr b \<Rightarrow> if b then Inr (expressed @ [geneId]) else Inr expressed)
          else Inr expressed)"

fun phenotype_loop ::
    "(string \<times> gene) list \<Rightarrow> (string \<times> jsval) list \<Rightarrow> string list \<Rightarrow> error + string list" where
  "phenotype_loop gs [] expressed = Inr expressed"
| "phenotype_loop gs (entry # rest) expressed =
     (case phenotype_step gs expressed entry of
        Inl e \<Rightarrow> Inl e
      | Inr expressed' \<Rightarrow> phenotype_loop gs rest expressed')"

text \<open>
  Every method returns its outcome together with the object after the call: the only
  field a query writes is the cache, and an exception leaves what was written before it.
\<close>

definition getPhenotype :: "snake \<Rightarrow> (error + string list) \<times> snake" where
  "getPhenotype s =
     (case phenotype_cache s of
        Some p \<Rightarrow> (Inr p, s)
      | None \<Rightarrow>
          (case phenotype_loop (genes (morphData s)) (genotype s) [] of
             Inl e \<Rightarrow> (Inl e, s)
           | Inr expressed \<Rightarrow> (Inr expressed, s\<lparr>phenotype_cache := Some expressed\<rparr>)))"

subsection \<open>getVisualGenes, getHetGenes, getDisplayName\<close>

text \<open>
  \<^verbatim>\<open>genes[geneId]\<close> also finds the members every object inherits from
  \<^verbatim>\<open>Object.prototype\<close>. They are truthy, so \<^verbatim>\<open>getVisualGenes\<close> shows their
  \<^verbatim>\<open>name\<close>: the function name, \<^verbatim>\<open>Object\<close> for the constructor, and
  \<^verbatim>\<open>undefined\<close> for \<^verbatim>\<open>__proto__\<close>, which \<^verbatim>\<open>join\<close> prints as the empty string.
  In the other lookups of the class an inherited member has none of the fields that are
  read (\<^verbatim>\<open>inheritance\<close>, \<^verbatim>\<open>rarity\<close>) and acts like a missing entry; the species and
  the sex of a creature are taken not to be such names.
\<close>

definition Object_prototype :: "(string \<times> string) list" where
  "Object_prototype =
     [(''constructor'', ''Object''),
      (''__defineGetter__'', ''__defineGetter__''),
      (''__defineSetter__'', ''__defineSetter__''),
      (''hasOwnProperty'', ''hasOwnProperty''),
      (''__lookupGetter__'', ''__lookupGetter__''),
      (''__lookupSetter__'', ''__lookupSetter__''),
      (''isPrototypeOf'', ''isPrototypeOf''),
      (''propertyIsEnumerable'', ''propertyIsEnumerable''),
      (''toString'', ''toString''),
      (''valueOf'', ''valueOf''),
      (''__proto__'', []),
      (''toLocaleString'', ''toLocaleString'')]"

definition visual_name :: "(string \<times> gene) list \<Rightarrow> string \<Rightarrow> string" where
  "visual_name gs geneId =
     (case map_of gs geneId of
        Some gene \<Rightarrow> gene_name gene
      | None \<Rightarrow> (case map_of Object_prototype geneId of Some nm \<Rightarrow> nm | None \<Rightarrow> geneId))"

definition getVisualGenes :: "snake \<Rightarrow> (error + string list) \<times> snake" where
  "getVisualGenes s =
     (case getPhenotype s of
        (Inl e, s') \<Rightarrow> (Inl e, s')
      | (Inr phenotype, s') \<Rightarrow> (Inr (map (visual_name (genes (morphData s'))) phenotype), s'))"

definition hets_step ::
    "(string \<times> gene) list \<Rightarrow> string list \<Rightarrow> string list \<Rightarrow> string \<times> jsval \<Rightarrow> error + string list" where
  "hets_step gs phenotype hets entry =
     (let geneId = fst entry; alleles = snd entry in
      case map_of gs geneId of
        None \<Rightarrow> Inr hets
      | Some gene \<Rightarrow>
          if inheritance gene \<noteq> ''recessive'' then Inr hets
          else
            (case js_filter (\<lambda>a. a = Str geneId) alleles of
               Inl e \<Rightarrow> Inl e
             | Inr cs \<Rightarrow>
                 let copies = length cs in
                 if copies = 1 \<and> geneId \<notin> set phenotype then Inr (hets @ [gene_name gene])
                 else Inr hets))"

fun hets_loop ::
    "(string \<times> gene) list \<Rightarrow> string list \<Rightarrow> (string \<times> jsval) list \<Rightarrow> string list \<Rightarrow> error + string list" where
  "hets_loop gs phenotype [] hets = Inr hets"
| "hets_loop gs phenotype (entry # rest) hets =
     (case hets_step gs phenotype hets entry of
        Inl e \<Rightarrow> Inl e
      | Inr hets' \<Rightarrow> hets_loop gs phenotype rest hets')"

definition getHetGenes :: "snake \<Rightarrow> (error + string list) \<times> snake" where
  "getHetGenes s =
     (case getPhenotype s of
        (Inl e, s') \<Rightarrow> (Inl e, s')
      | (Inr phenotype, s') \<Rightarrow> (hets_loop (genes (morphData s')) phenotype (genotype s') [], s'))"

definition combo_matches :: "string list \<Rightarrow> combo \<Rightarrow> bool" where
  "combo_matches phenotype c = list_all (\<lambda>req. req \<in> set phenotype) (requires c)"

text \<open>
  The scan for a combo name; \<open>None\<close> when the loop ends without a \<^verbatim>\<open>return\<close>. Each
  iteration calls \<^verbatim>\<open>this.getPhenotype()\<close> again.
\<close>

fun combo_name_loop :: "snake \<Rightarrow> (string \<times> combo) list \<Rightarrow> (error + string option) \<times> snake" where
  "combo_name_loop s [] = (Inr None, s)"
| "combo_name_loop s (entry # rest) =
     (case getPhenotype s of
        (Inl e, s') \<Rightarrow> (Inl e, s')
      | (Inr phenotype, s') \<Rightarrow>
          if combo_matches phenotype (snd entry) then (Inr (Some (combo_name (snd entry))), s')
          else combo_name_loop s' rest)"

definition getDisplayName :: "snake \<Rightarrow> (error + string) \<times> snake" where
  "getDisplayName s =
     (case getVisualGenes s of
        (Inl e, s') \<Rightarrow> (Inl e, s')
      | (Inr visuals, s') \<Rightarrow>
          if length visuals = 0 then (Inr ''Normal'', s')
          else
            (case combo_name_loop s' (comboMorphs (morphData s')) of
               (Inl e, s'') \<Rightarrow> (Inl e, s'')
             | (Inr (Some nm), s'') \<Rightarrow> (Inr nm, s'')
             | (Inr None, s'') \<Rightarrow> (Inr (js_join '' '' visuals), s'')))"


subsection \<open>calculatePrice\<close>

text \<open>
  The running price is a double in the source; here the products are exact reals, so a
  price whose exact value lies within a rounding error of a half-integer can round
  differently in the source. The combo step uses only \<^verbatim>\<open>Math.max\<close>, which is exact
  on doubles as well.
\<close>

fun rarity_loop :: "morphData \<Rightarrow> real \<Rightarrow> string list \<Rightarrow> real" where
  "rarity_loop md price [] = price"
| "rarity_loop md price (geneId # rest) =
     rarity_loop md
       (case map_of (genes md) geneId of
          None \<Rightarrow> price
        | Some gene \<Rightarrow>
            price * js_or (map_of (rarityMultipliers (pricingRules md)) (rarity gene)) 1)
       rest"

text \<open>The loop over \<^verbatim>\<open>Object.values(combos)\<close>, left by \<^verbatim>\<open>break\<close> at the first match.\<close>

fun combo_price_loop :: "string list \<Rightarrow> real \<Rightarrow> combo list \<Rightarrow> real" where
  "combo_price_loop phenotype price [] = price"
| "combo_price_loop phenotype price (c # rest) =
     (if combo_matches phenotype c then max price (js_or (basePrice c) price)
      else combo_price_loop phenotype price rest)"

text \<open>
  \<^verbatim>\<open>calculatePrice\<close> in three parts: the price before the phenotype is looked at
  (species base price, gender modifier), the two loops above, and the factors applied
  after the combo step (het bonus, proven-breeder bonus, species multiplier, rounding).
\<close>

definition start_price :: "snake \<Rightarrow> real" where
  "start_price s =
     js_or (case map_of (speciesTable (morphData s)) (species s) of
              None \<Rightarrow> None
            | Some sp \<Rightarrow> species_basePrice sp) 100
       * js_or (map_of (genderMultiplier (pricingRules (morphData s))) (sex s)) 1"

definition finish_price :: "snake \<Rightarrow> nat \<Rightarrow> real \<Rightarrow> int" where
  "finish_price s hetCount price =
     (let rules = pricingRules (morphData s);
          price4 = price * (1 + real hetCount * hetGeneBonus rules);
          price5 = (if clutchesProduced (snake_stats s) > 0
                    then price4 * provenBreederBonus rules else price4);
          price6 = price5 * js_or (map_of (speciesMultipliers rules) (species s)) 1
      in Math_round price6)"

definition calculatePrice :: "snake \<Rightarrow> (error + int) \<times> snake" where
  "calculatePrice s =
     (case getPhenotype s of
        (Inl e, s1) \<Rightarrow> (Inl e, s1)
      | (Inr phenotype, s1) \<Rightarrow>
          (case getHetGenes s1 of
             (Inl e, s2) \<Rightarrow> (Inl e, s2)
           | (Inr hets, s2) \<Rightarrow>
               (Inr (finish_price s2 (length hets)
                      (combo_price_loop phenotype
                         (rarity_loop (morphData s) (start_price s) phenotype)
                         (map snd (comboMorphs (morphData s))))), s2)))"

section \<open>Breeding\<close>

text \<open>
  Modelled from the spec: \<^verbatim>\<open>Genetics.breed\<close>. The file \<^verbatim>\<open>src/core/Genetics.js\<close> that
  \<^verbatim>\<open>Game.js\<close> imports is not among the sources. The model follows the six steps of the
  specification's breeding engine, in the control flow of the \<^verbatim>\<open>breed\<close> listing of
  \<^verbatim>\<open>SPECIFICATIONS.md\<close> (section 2.2): the species check comes first, the clutch size
  is one draw of the generator's \<^verbatim>\<open>int\<close>, every allele is one \<^verbatim>\<open>pick\<close> on the
  parent's value \<^verbatim>\<open>parent.genotype[geneId]\<close>, and the sex is one \<^verbatim>\<open>bool(0.5)\<close>. The
  generator is threaded through explicitly and returned with the outcome. Each child is
  built by the constructor without id and birth date, which therefore come from the
  environment.

  \<^verbatim>\<open>pick\<close> reads \<^verbatim>\<open>array.length\<close> before it draws: on a gene that the parent lacks
  (\<^verbatim>\<open>undefined\<close>) and on \<^verbatim>\<open>null\<close> it throws and nothing is drawn. A number has no
  length, the index is \<^verbatim>\<open>NaN\<close> after one draw and the pick is \<^verbatim>\<open>undefined\<close>. A
  string is indexed by character.
\<close>

definition js_prop :: "(string \<times> jsval) list \<Rightarrow> string \<Rightarrow> jsval" where
  "js_prop obj k = (case map_of obj k of Some v \<Rightarrow> v | None \<Rightarrow> Undefined)"

fun pick_value :: "SeededRandom \<Rightarrow> jsval \<Rightarrow> (error + jsval) \<times> SeededRandom" where
  "pick_value r Undefined = (Inl TypeError, r)"
| "pick_value r Null = (Inl TypeError, r)"
| "pick_value r (Num n) = (Inr Undefined, snd (SeededRandom_next r))"
| "pick_value r (Str cs) =
     (let (a, r') = SeededRandom_pick r cs
      in (Inr (case a of Some c \<Rightarrow> Str [c] | None \<Rightarrow> Undefined), r'))"
| "pick_value r (Arr xs) =
     (let (a, r') = SeededRandom_pick r xs
      in (Inr (case a of Some x \<Rightarrow> x | None \<Rightarrow> Undefined), r'))"

fun child_genotype ::
    "SeededRandom \<Rightarrow> string list \<Rightarrow> (string \<times> jsval) list \<Rightarrow> (string \<times> jsval) list \<Rightarrow>
     (error + (string \<times> jsval) list) \<times> SeededRandom" where
  "child_genotype r [] g1 g2 = (Inr [], r)"
| "child_genotype r (geneId # rest) g1 g2 =
     (case pick_value r (js_prop g1 geneId) of
        (Inl e, r1) \<Rightarrow> (Inl e, r1)
      | (Inr allele1, r1) \<Rightarrow>
          (case pick_value r1 (js_prop g2 geneId) of
             (Inl e, r2) \<Rightarrow> (Inl e, r2)
           | (Inr allele2, r2) \<Rightarrow>
               (case child_genotype r2 rest g1 g2 of
                  (Inl e, r3) \<Rightarrow> (Inl e, r3)
                | (Inr g, r3) \<Rightarrow> (Inr ((geneId, Arr [allele1, allele2]) # g), r3))))"

fun clutch_loop ::
    "(nat \<Rightarrow> string) \<Rightarrow> int \<Rightarrow> snake \<Rightarrow> snake \<Rightarrow> nat \<Rightarrow> nat \<Rightarrow> SeededRandom \<Rightarrow>
     (error + snake list) \<times> SeededRandom" where
  "clutch_loop fresh_id now parent1 parent2 i 0 r = (Inr [], r)"
| "clutch_loop fresh_id now parent1 parent2 i (Suc n) r =
     (case child_genotype r (map fst (genotype parent1)) (genotype parent1) (genotype parent2) of
        (Inl e, r1) \<Rightarrow> (Inl e, r1)
      | (Inr g, r1) \<Rightarrow>
          (let (b, r2) = SeededRandom_bool r1 (1 / 2);
               child = Snake (fresh_id i) now
                         \<lparr>cfg_id = None, cfg_species = species parent1,
                          cfg_sex = (if b then ''female'' else ''male''),
                          cfg_genotype = Some g, cfg_origin = Some ''bred'',
                          cfg_parentIds = Some (snake_id parent1, snake_id parent2),
                          cfg_birthDate = None, cfg_stats = None\<rparr>
                         (morphData parent1)
           in case clutch_loop fresh_id now parent1 parent2 (Suc i) n r2 of
                (Inl e, r3) \<Rightarrow> (Inl e, r3)
              | (Inr rest, r3) \<Rightarrow> (Inr (child # rest), r3)))"

definition breed ::
    "(nat \<Rightarrow> string) \<Rightarrow> int \<Rightarrow> snake \<Rightarrow> snake \<Rightarrow> speciesEntry \<Rightarrow> SeededRandom \<Rightarrow>
     (error + snake list) \<times> SeededRandom" where
  "breed fresh_id now parent1 parent2 sp prng =
     (if species parent1 \<noteq> species parent2 then (Inl SpeciesMismatch, prng)
      else
        (let (clutchSize, r1) = SeededRandom_int prng (of_int (clutchMin sp)) (of_int (clutchMax sp))
         in clutch_loop fresh_id now parent1 parent2 0 (nat clutchSize) r1))"

section \<open>Example data\<close>

text \<open>
  \<^verbatim>\<open>data/morphs.json\<close> is not among the sources. The examples use a catalog in the shape
  \<^verbatim>\<open>Snake.js\<close> reads, with genes and combo morphs of \<^verbatim>\<open>SPECIFICATIONS.md\<close>
  (sections 1.1 to 1.3), identifiers and inheritance modes spelled the way
  \<^verbatim>\<open>Snake.js\<close> compares them, and prices chosen for the examples. All its numbers are
  small dyadic fractions, on which double arithmetic is exact.
\<close>

definition mk_gene :: "string \<Rightarrow> string \<Rightarrow> int \<Rightarrow> string option \<Rightarrow> gene" where
  "mk_gene n i r sf = \<lparr>gene_name = n, inheritance = i, rarity = r, superForm = sf\<rparr>"

definition mk_combo :: "string \<Rightarrow> string list \<Rightarrow> real option \<Rightarrow> combo" where
  "mk_combo n rq bp = \<lparr>combo_name = n, requires = rq, basePrice = bp\<rparr>"

definition exampleGenes :: "(string \<times> gene) list" where
  "exampleGenes =
     [(''albino'', mk_gene ''Albino'' ''recessive'' 1 None),
      (''axanthic'', mk_gene ''Axanthic'' ''recessive'' 2 None),
      (''sable'', mk_gene ''Sable'' ''recessive'' 3 None),
      (''anaconda'', mk_gene ''Anaconda'' ''incompleteDominant'' 2 (Some ''superconda'')),
      (''arctic'', mk_gene ''Arctic'' ''incompleteDominant'' 3 (Some ''superarctic'')),
      (''cinnamon'', mk_gene ''Cinnamon'' ''dominant'' 2 None)]"

definition exampleCombos :: "(string \<times> combo) list" where
  "exampleCombos =
     [(''snow'', mk_combo ''Snow'' [''albino'', ''axanthic''] (Some 800)),
      (''yeti'', mk_combo ''Yeti'' [''albino'', ''axanthic'', ''anaconda''] (Some 2000)),
      (''sunburst'', mk_combo ''Sunburst'' [''sable'', ''albino''] (Some 3000)),
      (''subzero'', mk_combo ''Subzero'' [''albino'', ''superarctic''] (Some 5000))]"

definition exampleRules :: pricingRules where
  "exampleRules =
     \<lparr>genderMultiplier = [(''female'', 5 / 4), (''male'', 1)],
      rarityMultipliers = [(1, 3 / 2), (2, 2), (3, 5 / 2), (4, 4), (5, 8)],
      hetGeneBonus = 1 / 4,
      provenBreederBonus = 5 / 4,
      speciesMultipliers = [(''western'', 1), (''eastern'', 3 / 2), (''southern'', 2)]\<rparr>"

definition exampleSpecies :: "(string \<times> speciesEntry) list" where
  "exampleSpecies =
     [(''western'', \<lparr>commonName = ''Western Hognose'', species_basePrice = Some 100,
                     clutchMin = 8, clutchMax = 25\<rparr>),
      (''eastern'', \<lparr>commonName = ''Eastern Hognose'', species_basePrice = Some 150,
                     clutchMin = 10, clutchMax = 30\<rparr>),
      (''southern'', \<lparr>commonName = ''Southern Hognose'', species_basePrice = Some 500,
                      clutchMin = 6, clutchMax = 14\<rparr>)]"

definition exampleMorphData :: morphData where
  "exampleMorphData =
     \<lparr>genes = exampleGenes, comboMorphs = exampleCombos, speciesTable = exampleSpecies,
      pricingRules = exampleRules\<rparr>"

definition hom :: "string \<Rightarrow> string \<times> jsval" where
  "hom g = (g, Arr [Str g, Str g])"

definition het :: "string \<Rightarrow> string \<times> jsval" where
  "het g = (g, Arr [Str g, Str ''wild''])"

definition exampleSnake :: "string \<Rightarrow> (string \<times> jsval) list \<Rightarrow> snake" where
  "exampleSnake sp g =
     Snake ''snake_0'' 1
       \<lparr>cfg_id = Some ''s1'', cfg_species = sp, cfg_sex = ''male'', cfg_genotype = Some g,
        cfg_origin = Some ''wild'', cfg_parentIds = None, cfg_birthDate = Some 1,
        cfg_stats = None\<rparr>
       exampleMorphData"


text \<open>
  Two further catalogs: one in which a dominant gene is called Normal (the species table
  of \<^verbatim>\<open>SPECIFICATIONS.md\<close> lists a morph \<^verbatim>\<open>NORMAL\<close>), and one whose super form is
  named like a member of \<^verbatim>\<open>Object.prototype\<close>.
\<close>

definition normalMorphData :: morphData where
  "normalMorphData =
     exampleMorphData\<lparr>genes := (''normal'', mk_gene ''Normal'' ''dominant'' 1 None) # exampleGenes\<rparr>"

definition inheritedMorphData :: morphData where
  "inheritedMorphData =
     exampleMorphData
       \<lparr>genes := [(''anaconda'', mk_gene ''Anaconda'' ''incompleteDominant'' 2 (Some ''constructor''))]\<rparr>"

definition snakeOf :: "morphData \<Rightarrow> (string \<times> jsval) list \<Rightarrow> snake" where
  "snakeOf md g =
     Snake ''snake_0'' 1
       \<lparr>cfg_id = Some ''s2'', cfg_species = ''western'', cfg_sex = ''female'',
        cfg_genotype = Some g, cfg_origin = None, cfg_parentIds = None, cfg_birthDate = None,
        cfg_stats = None\<rparr>
       md"

definition westernEntry :: speciesEntry where
  "westernEntry = \<lparr>commonName = ''Western Hognose'', species_basePrice = Some 100,
                    clutchMin = 8, clutchMax = 25\<rparr>"

section \<open>Vocabulary of the statements\<close>

text \<open>
  A genotype is well shaped for a catalog when every entry whose gene the catalog knows
  holds an array (of any length, with any elements). Entries of unknown genes may hold
  anything.
\<close>

fun is_array :: "jsval \<Rightarrow> bool" where
  "is_array (Arr xs) = True"
| "is_array v = False"

definition well_shaped :: "(string \<times> gene) list \<Rightarrow> (string \<times> jsval) list \<Rightarrow> bool" where
  "well_shaped gs g =
     list_all (\<lambda>entry. map_of gs (fst entry) \<noteq> None \<longrightarrow> is_array (snd entry)) g"

text \<open>
  What one genotype entry alone contributes: the traits its iteration of the phenotype
  loop pushes, and the carrier names its iteration of the het loop pushes.
\<close>

definition entry_traits :: "(string \<times> gene) list \<Rightarrow> string \<times> jsval \<Rightarrow> string list" where
  "entry_traits gs entry = (case phenotype_step gs [] entry of Inr ts \<Rightarrow> ts | Inl e \<Rightarrow> [])"

definition entry_hets ::
    "(string \<times> gene) list \<Rightarrow> string list \<Rightarrow> string \<times> jsval \<Rightarrow> string list" where
  "entry_hets gs ph entry = (case hets_step gs ph [] entry of Inr hs \<Rightarrow> hs | Inl e \<Rightarrow> [])"

text \<open>The factor by which one expressed trait multiplies the running price.\<close>

definition trait_factor :: "morphData \<Rightarrow> string \<Rightarrow> real" where
  "trait_factor md t =
     (case map_of (genes md) t of
        None \<Rightarrow> 1
      | Some gene \<Rightarrow> js_or (map_of (rarityMultipliers (pricingRules md)) (rarity gene)) 1)"

section \<open>The generator stays in range\<close>

lemma js_rem_range: "0 \<le> a \<Longrightarrow> 0 < b \<Longrightarrow> 0 \<le> js_rem a b \<and> js_rem a b < b"
  by (cases "a = 0") (simp_all add: js_rem_def)

lemma next_range:
  assumes "0 \<le> current r"
  shows "0 \<le> fst (SeededRandom_next r)" and "fst (SeededRandom_next r) < 1"
    and "0 \<le> current (snd (SeededRandom_next r))"
    and "current (snd (SeededRandom_next r)) < lcg_m"
proof -
  have a: "0 \<le> lcg_a * current r" using assms by (simp add: lcg_a_def)
  have m: "0 < lcg_m" by (simp add: lcg_m_def)
  note rg = js_rem_range [OF a m]
  show "0 \<le> fst (SeededRandom_next r)"
    using rg m by (simp add: SeededRandom_next_def Let_def)
  show "fst (SeededRandom_next r) < 1"
    using rg m by (simp add: SeededRandom_next_def Let_def)
  show "0 \<le> current (snd (SeededRandom_next r))"
    using rg by (simp add: SeededRandom_next_def Let_def)
  show "current (snd (SeededRandom_next r)) < lcg_m"
    using rg by (simp add: SeededRandom_next_def Let_def)
qed

lemma floor_rescale:
  fixes u :: real
  assumes "0 \<le> u" "u < 1" "a \<le> b"
  shows "a \<le> \<lfloor>of_int a + u * (of_int b + 1 - of_int a)\<rfloor>"
    and "\<lfloor>of_int a + u * (of_int b + 1 - of_int a)\<rfloor> \<le> b"
proof -
  let ?w = "of_int b + 1 - of_int a :: real"
  have w: "0 < ?w" using assms(3) by linarith
  have lo: "0 \<le> u * ?w" using assms(1) w by simp
  have "u * ?w < 1 * ?w" using assms(2) w by (rule mult_strict_right_mono)
  then have hi: "of_int a + u * ?w < of_int (b + 1)" by simp
  show "a \<le> \<lfloor>of_int a + u * ?w\<rfloor>" using lo by (simp add: le_floor_iff)
  have "\<lfloor>of_int a + u * ?w\<rfloor> < b + 1" using hi by (simp only: floor_less_iff)
  then show "\<lfloor>of_int a + u * ?w\<rfloor> \<le> b" by simp
qed

lemma int_range:
  assumes "0 \<le> current r" "a \<le> b"
  shows "a \<le> fst (SeededRandom_int r (of_int a) (of_int b))"
    and "fst (SeededRandom_int r (of_int a) (of_int b)) \<le> b"
  using floor_rescale [OF next_range(1,2) [OF assms(1)] assms(2)]
  by (simp_all add: SeededRandom_int_def SeededRandom_float_def split_beta)


text \<open>
  C10: for a non-empty array and a generator whose state is a non-negative integer below
  2147483647, \<^verbatim>\<open>next()\<close> is below 1, the index \<^verbatim>\<open>int(0, length - 1)\<close> lies in
  \<open>[0, length - 1]\<close>, and \<^verbatim>\<open>pick\<close> returns an element of the array (it never reads out
  of bounds, which would yield \<open>None\<close>).
\<close>

theorem C10_pick_within_bounds:
  assumes "array \<noteq> []" and "0 \<le> current r" and "current r < 2147483647"
  shows "fst (SeededRandom_next r) < 1 \<and>
         0 \<le> fst (SeededRandom_int r 0 (real (length array) - 1)) \<and>
         fst (SeededRandom_int r 0 (real (length array) - 1)) < int (length array) \<and>
         (\<exists>x. fst (SeededRandom_pick r array) = Some x \<and> x \<in> set array)"
proof -
  let ?i = "fst (SeededRandom_int r 0 (real (length array) - 1))"
  have len: "(0::int) \<le> int (length array) - 1" using assms(1) by (cases array) simp_all
  have eq: "real_of_int (int (length array) - 1) = real (length array) - 1" by simp
  have lo: "0 \<le> ?i" using int_range(1) [OF assms(2) len] by (simp only: eq of_int_0)
  have "?i \<le> int (length array) - 1"
    using int_range(2) [OF assms(2) len] by (simp only: eq of_int_0)
  then have hi: "?i < int (length array)" by simp
  have "fst (SeededRandom_pick r array) = Some (array ! nat ?i)"
    using lo hi by (simp add: SeededRandom_pick_def js_index_def split_beta)
  moreover have "array ! nat ?i \<in> set array" using lo hi by simp
  ultimately show ?thesis using lo hi next_range(2) [OF assms(2)] by blast
qed

theorem C10_pick_within_bounds_witness:
  "[''western'', ''western'', ''western'', ''eastern''] \<noteq> [] \<and>
   0 \<le> current (SeededRandom_new 42069) \<and> current (SeededRandom_new 42069) < 2147483647 \<and>
   fst (SeededRandom_next (SeededRandom_new 42069)) < 1 \<and>
   0 \<le> fst (SeededRandom_int (SeededRandom_new 42069) 0
              (real (length [''western'', ''western'', ''western'', ''eastern'']) - 1)) \<and>
   fst (SeededRandom_int (SeededRandom_new 42069) 0
              (real (length [''western'', ''western'', ''western'', ''eastern'']) - 1))
     < int (length [''western'', ''western'', ''western'', ''eastern'']) \<and>
   (\<exists>x. fst (SeededRandom_pick (SeededRandom_new 42069)
              [''western'', ''western'', ''western'', ''eastern'']) = Some x \<and>
        x \<in> set [''western'', ''western'', ''western'', ''eastern''])"
proof -
  have 1: "[''western'', ''western'', ''western'', ''eastern''] \<noteq> []" by simp
  have 2: "0 \<le> current (SeededRandom_new 42069)" by (simp add: SeededRandom_new_def)
  have 3: "current (SeededRandom_new 42069) < 2147483647" by (simp add: SeededRandom_new_def)
  show ?thesis using 1 2 3 C10_pick_within_bounds [OF 1 2 3] by blast
qed

section \<open>Breeding: species check and clutch size\<close>

lemma pick_value_array: "\<exists>a. fst (pick_value r (Arr xs)) = Inr a"
  by (simp add: split_beta)



text \<open>
  C5: when the parents' species differ, \<^verbatim>\<open>breed\<close> fails with the species-mismatch
  error, returns no offspring, and leaves the generator exactly as it was: the check
  precedes every draw. The parents are only read by \<^verbatim>\<open>breed\<close>.
\<close>

theorem C5_species_mismatch:
  assumes "species parent1 \<noteq> species parent2"
  shows "breed fresh_id now parent1 parent2 sp prng = (Inl SpeciesMismatch, prng)"
  using assms by (simp add: breed_def)

theorem C5_species_mismatch_witness:
  "species (exampleSnake ''western'' [het ''albino''])
     \<noteq> species (exampleSnake ''eastern'' [het ''albino'']) \<and>
   breed (\<lambda>i. ''egg'') 0 (exampleSnake ''western'' [het ''albino''])
     (exampleSnake ''eastern'' [het ''albino'']) westernEntry (SeededRandom_new 42069)
   = (Inl SpeciesMismatch, SeededRandom_new 42069)"
proof -
  have 1: "species (exampleSnake ''western'' [het ''albino''])
     \<noteq> species (exampleSnake ''eastern'' [het ''albino''])"
    by (simp add: exampleSnake_def Snake_def)
  show ?thesis using 1 C5_species_mismatch [OF 1] by blast
qed


section \<open>The queries on a snake\<close>

lemmas example_defs = exampleSnake_def Snake_def exampleMorphData_def exampleGenes_def
  exampleCombos_def exampleRules_def exampleSpecies_def mk_gene_def mk_combo_def hom_def het_def

subsection \<open>The two loops on well-shaped genotypes\<close>



lemma phenotype_step_ok:
  "map_of gs (fst entry) \<noteq> None \<longrightarrow> is_array (snd entry) \<Longrightarrow>
   phenotype_step gs acc entry = Inr (acc @ entry_traits gs entry)"
  by (cases "snd entry")
     (auto simp: phenotype_step_def entry_traits_def Let_def split: option.splits sum.splits)

lemma phenotype_loop_ok:
  "well_shaped gs es \<Longrightarrow>
   phenotype_loop gs es acc = Inr (acc @ concat (map (entry_traits gs) es))"
proof (induction es arbitrary: acc)
  case Nil
  then show ?case by simp
next
  case (Cons entry es)
  from Cons.prems have 1: "map_of gs (fst entry) \<noteq> None \<longrightarrow> is_array (snd entry)"
    and 2: "well_shaped gs es" by (simp_all add: well_shaped_def)
  show ?case by (simp add: phenotype_step_ok [OF 1] Cons.IH [OF 2])
qed

lemma hets_step_ok:
  "map_of gs (fst entry) \<noteq> None \<longrightarrow> is_array (snd entry) \<Longrightarrow>
   hets_step gs ph acc entry = Inr (acc @ entry_hets gs ph entry)"
  by (cases "snd entry")
     (auto simp: hets_step_def entry_hets_def Let_def split: option.splits sum.splits)

lemma hets_loop_ok:
  "well_shaped gs es \<Longrightarrow>
   hets_loop gs ph es acc = Inr (acc @ concat (map (entry_hets gs ph) es))"
proof (induction es arbitrary: acc)
  case Nil
  then show ?case by simp
next
  case (Cons entry es)
  from Cons.prems have 1: "map_of gs (fst entry) \<noteq> None \<longrightarrow> is_array (snd entry)"
    and 2: "well_shaped gs es" by (simp_all add: well_shaped_def)
  show ?case by (simp add: hets_step_ok [OF 1] Cons.IH [OF 2])
qed

lemma getPhenotype_Inr:
  "fst (getPhenotype s) = Inr ph \<Longrightarrow> getPhenotype s = (Inr ph, s\<lparr>phenotype_cache := Some ph\<rparr>)"
  by (auto simp: getPhenotype_def split: option.splits sum.splits)

lemma getPhenotype_Inl:
  "fst (getPhenotype s) = Inl e \<Longrightarrow> getPhenotype s = (Inl e, s)"
  by (auto simp: getPhenotype_def split: option.splits sum.splits)

lemma getPhenotype_cached:
  "getPhenotype (s\<lparr>phenotype_cache := Some ph\<rparr>) = (Inr ph, s\<lparr>phenotype_cache := Some ph\<rparr>)"
  by (simp add: getPhenotype_def)

lemma getPhenotype_fresh:
  "phenotype_cache s = None \<Longrightarrow> well_shaped (genes (morphData s)) (genotype s) \<Longrightarrow>
   fst (getPhenotype s) = Inr (concat (map (entry_traits (genes (morphData s))) (genotype s)))"
  by (simp add: getPhenotype_def phenotype_loop_ok)

lemma getPhenotype_total:
  "well_shaped (genes (morphData s)) (genotype s) \<Longrightarrow> \<exists>ph. fst (getPhenotype s) = Inr ph"
  by (cases "phenotype_cache s") (simp_all add: getPhenotype_def phenotype_loop_ok)

lemma getVisualGenes_Inr:
  "fst (getPhenotype s) = Inr ph \<Longrightarrow>
   getVisualGenes s = (Inr (map (visual_name (genes (morphData s))) ph), s\<lparr>phenotype_cache := Some ph\<rparr>)"
  by (simp add: getVisualGenes_def getPhenotype_Inr)

lemma getHetGenes_Inr:
  "fst (getPhenotype s) = Inr ph \<Longrightarrow>
   getHetGenes s = (hets_loop (genes (morphData s)) ph (genotype s) [], s\<lparr>phenotype_cache := Some ph\<rparr>)"
  by (simp add: getHetGenes_def getPhenotype_Inr)

lemma combo_matches_subset: "combo_matches ph c \<longleftrightarrow> set (requires c) \<subseteq> set ph"
  by (auto simp: combo_matches_def list_all_iff)

lemma combo_name_loop_cached:
  "combo_name_loop (s\<lparr>phenotype_cache := Some ph\<rparr>) cs =
     (Inr (map_option combo_name (find (combo_matches ph) (map snd cs))), s\<lparr>phenotype_cache := Some ph\<rparr>)"
  by (induction cs) (simp_all add: getPhenotype_cached)

lemma getDisplayName_Inr:
  assumes "fst (getPhenotype s) = Inr ph"
  shows "getDisplayName s =
     (Inr (if ph = [] then ''Normal''
           else (case find (combo_matches ph) (map snd (comboMorphs (morphData s))) of
                   Some c \<Rightarrow> combo_name c
                 | None \<Rightarrow> js_join '' '' (map (visual_name (genes (morphData s))) ph))),
      s\<lparr>phenotype_cache := Some ph\<rparr>)"
  by (simp add: getDisplayName_def getVisualGenes_Inr [OF assms] combo_name_loop_cached
      split: option.splits)


subsection \<open>Outcomes of the queries in terms of the phenotype\<close>

lemma getVisualGenes_Inl: "fst (getPhenotype s) = Inl e \<Longrightarrow> fst (getVisualGenes s) = Inl e"
  by (simp add: getVisualGenes_def getPhenotype_Inl)

lemma getHetGenes_Inl: "fst (getPhenotype s) = Inl e \<Longrightarrow> fst (getHetGenes s) = Inl e"
  by (simp add: getHetGenes_def getPhenotype_Inl)

lemma getDisplayName_Inl: "fst (getPhenotype s) = Inl e \<Longrightarrow> fst (getDisplayName s) = Inl e"
  by (simp add: getDisplayName_def getVisualGenes_def getPhenotype_Inl)

lemma calculatePrice_Inl: "fst (getPhenotype s) = Inl e \<Longrightarrow> fst (calculatePrice s) = Inl e"
  by (simp add: calculatePrice_def getPhenotype_Inl)

lemma calculatePrice_gen:
  assumes "fst (getPhenotype s) = Inr ph"
  shows "fst (calculatePrice s) =
     (case hets_loop (genes (morphData s)) ph (genotype s) [] of
        Inl e \<Rightarrow> Inl e
      | Inr hets \<Rightarrow>
          Inr (finish_price s (length hets)
                (combo_price_loop ph (rarity_loop (morphData s) (start_price s) ph)
                   (map snd (comboMorphs (morphData s))))))"
proof -
  have c: "fst (getPhenotype (s\<lparr>phenotype_cache := Some ph\<rparr>)) = Inr ph"
    by (simp add: getPhenotype_cached)
  have f: "finish_price (s\<lparr>phenotype_cache := Some ph\<rparr>) n p = finish_price s n p" for n p
    by (simp add: finish_price_def)
  show ?thesis
    by (simp add: calculatePrice_def getPhenotype_Inr [OF assms] getHetGenes_Inr [OF c] f
        split: sum.splits)
qed


lemma getPhenotype_fst:
  "fst (getPhenotype s) =
     (case phenotype_cache s of
        Some p \<Rightarrow> Inr p
      | None \<Rightarrow> phenotype_loop (genes (morphData s)) (genotype s) [])"
  by (cases "phenotype_cache s"; cases "phenotype_loop (genes (morphData s)) (genotype s) []")
     (simp_all add: getPhenotype_def)

lemma getHetGenes_fst:
  "fst (getHetGenes s) =
     (case fst (getPhenotype s) of
        Inl e \<Rightarrow> Inl e
      | Inr ph \<Rightarrow> hets_loop (genes (morphData s)) ph (genotype s) [])"
  by (cases "fst (getPhenotype s)") (simp_all add: getHetGenes_Inl getHetGenes_Inr)

lemma getDisplayName_fst:
  "fst (getDisplayName s) =
     (case fst (getPhenotype s) of
        Inl e \<Rightarrow> Inl e
      | Inr ph \<Rightarrow>
          Inr (if ph = [] then ''Normal''
               else (case find (combo_matches ph) (map snd (comboMorphs (morphData s))) of
                   Some c \<Rightarrow> combo_name c
                 | None \<Rightarrow> js_join '' '' (map (visual_name (genes (morphData s))) ph))))"
  by (cases "fst (getPhenotype s)") (simp_all add: getDisplayName_Inl getDisplayName_Inr)

lemma calculatePrice_fst:
  "fst (calculatePrice s) =
     (case fst (getPhenotype s) of
        Inl e \<Rightarrow> Inl e
      | Inr ph \<Rightarrow>
         (case hets_loop (genes (morphData s)) ph (genotype s) [] of
            Inl e \<Rightarrow> Inl e
          | Inr hets \<Rightarrow>
             Inr (finish_price s (length hets)
                (combo_price_loop ph (rarity_loop (morphData s) (start_price s) ph)
                   (map snd (comboMorphs (morphData s)))))))"
  by (cases "fst (getPhenotype s)") (simp_all add: calculatePrice_Inl calculatePrice_gen)

lemma queries_cong:
  assumes md: "morphData u = morphData t"
    and sp: "species u = species t" "sex u = sex t" "snake_stats u = snake_stats t"
    and ph: "fst (getPhenotype u) = fst (getPhenotype t)"
    and hl: "\<And>ph. hets_loop (genes (morphData t)) ph (genotype u) []
                   = hets_loop (genes (morphData t)) ph (genotype t) []"
  shows "fst (getHetGenes u) = fst (getHetGenes t)"
    and "fst (getDisplayName u) = fst (getDisplayName t)"
    and "fst (calculatePrice u) = fst (calculatePrice t)"
proof -
  have f: "finish_price u n p = finish_price t n p" for n p
    by (simp add: finish_price_def md sp)
  have st: "start_price u = start_price t"
    by (simp add: start_price_def md sp)
  show "fst (getHetGenes u) = fst (getHetGenes t)"
    unfolding getHetGenes_fst ph md
    by (cases "fst (getPhenotype t)") (simp_all add: hl)
  show "fst (getDisplayName u) = fst (getDisplayName t)"
    unfolding getDisplayName_fst ph md ..
  show "fst (calculatePrice u) = fst (calculatePrice t)"
    unfolding calculatePrice_fst ph md st
    by (cases "fst (getPhenotype t)") (simp_all add: hl f split: sum.splits)
qed

subsection \<open>Order of the phenotype\<close>

lemma phenotype_step_map_of:
  "map_of gs' = map_of gs \<Longrightarrow> phenotype_step gs' acc entry = phenotype_step gs acc entry"
  by (simp add: phenotype_step_def)

lemma phenotype_loop_map_of:
  assumes "map_of gs' = map_of gs"
  shows "phenotype_loop gs' es acc = phenotype_loop gs es acc"
  by (induction es arbitrary: acc) (simp_all add: phenotype_step_map_of [OF assms] split: sum.splits)

text \<open>
  C1, as stated, fails: the loop of \<^verbatim>\<open>getPhenotype\<close> runs over
  \<^verbatim>\<open>Object.entries(this.genotype)\<close>, not over the catalog. The catalog lists albino
  before axanthic; a genotype that lists axanthic first resolves to axanthic, albino.
\<close>

theorem C1_counterexample:
  "map fst (genes exampleMorphData) = [''albino'', ''axanthic'', ''sable'', ''anaconda'', ''arctic'', ''cinnamon''] \<and>
   fst (getPhenotype (exampleSnake ''western'' [hom ''axanthic'', hom ''albino'']))
     = Inr [''axanthic'', ''albino'']"
  by (simp add: example_defs getPhenotype_def phenotype_step_def)

text \<open>
  C1, amended: for a fresh creature with a well-shaped genotype, the phenotype is the
  concatenation, in the genotype's own entry order, of what each entry expresses; the
  visual names follow the same order; and the order of the catalog's gene table has no
  influence (only its lookups are used).
\<close>

theorem C1_phenotype_in_genotype_order:
  assumes "phenotype_cache s = None"
    and "well_shaped (genes (morphData s)) (genotype s)"
  shows "fst (getPhenotype s)
           = Inr (concat (map (entry_traits (genes (morphData s))) (genotype s))) \<and>
         fst (getVisualGenes s)
           = Inr (map (visual_name (genes (morphData s)))
                    (concat (map (entry_traits (genes (morphData s))) (genotype s)))) \<and>
         (\<forall>gs'. map_of gs' = map_of (genes (morphData s)) \<longrightarrow>
            fst (getPhenotype (s\<lparr>morphData := (morphData s)\<lparr>genes := gs'\<rparr>\<rparr>))
              = fst (getPhenotype s))"
proof -
  have 1: "fst (getPhenotype s)
           = Inr (concat (map (entry_traits (genes (morphData s))) (genotype s)))"
    by (rule getPhenotype_fresh [OF assms])
  have 2: "fst (getVisualGenes s)
           = Inr (map (visual_name (genes (morphData s)))
                    (concat (map (entry_traits (genes (morphData s))) (genotype s))))"
    by (simp only: getVisualGenes_Inr [OF 1] fst_conv)
  have 3: "fst (getPhenotype (s\<lparr>morphData := (morphData s)\<lparr>genes := gs'\<rparr>\<rparr>))
              = fst (getPhenotype s)" if "map_of gs' = map_of (genes (morphData s))" for gs'
    by (cases "phenotype_cache s") (simp_all add: getPhenotype_fst phenotype_loop_map_of [OF that])
  show ?thesis
  proof (intro conjI allI impI)
    show "fst (getPhenotype s)
           = Inr (concat (map (entry_traits (genes (morphData s))) (genotype s)))" by (rule 1)
    show "fst (getVisualGenes s)
           = Inr (map (visual_name (genes (morphData s)))
                    (concat (map (entry_traits (genes (morphData s))) (genotype s))))" by (rule 2)
    show "fst (getPhenotype (s\<lparr>morphData := (morphData s)\<lparr>genes := gs'\<rparr>\<rparr>))
              = fst (getPhenotype s)" if "map_of gs' = map_of (genes (morphData s))" for gs'
      using that by (rule 3)
  qed
qed

theorem C1_phenotype_in_genotype_order_witness:
  "phenotype_cache (exampleSnake ''western'' [hom ''axanthic'', het ''sable'', hom ''albino'']) = None \<and>
   fst (getPhenotype (exampleSnake ''western'' [hom ''axanthic'', het ''sable'', hom ''albino'']))
     = Inr [''axanthic'', ''albino''] \<and>
   fst (getVisualGenes (exampleSnake ''western'' [hom ''axanthic'', het ''sable'', hom ''albino'']))
     = Inr [''Axanthic'', ''Albino'']"
proof -
  let ?s = "exampleSnake ''western'' [hom ''axanthic'', het ''sable'', hom ''albino'']"
  have 1: "phenotype_cache ?s = None" by (simp add: example_defs)
  have 2: "well_shaped (genes (morphData ?s)) (genotype ?s)"
    by (simp add: example_defs well_shaped_def)
  have 3: "concat (map (entry_traits (genes (morphData ?s))) (genotype ?s)) = [''axanthic'', ''albino'']"
    by (simp add: example_defs entry_traits_def phenotype_step_def)
  have 4: "map (visual_name (genes (morphData ?s))) [''axanthic'', ''albino''] = [''Axanthic'', ''Albino'']"
    by (simp add: example_defs visual_name_def)
  from C1_phenotype_in_genotype_order [OF 1 2] 1 show ?thesis
    by (simp only: 3 4 simp_thms)
qed

subsection \<open>Failure and unknown genes\<close>

lemma phenotype_step_skip: "map_of gs k = None \<Longrightarrow> phenotype_step gs acc (k, v) = Inr acc"
  by (simp add: phenotype_step_def)

lemma phenotype_loop_skip:
  "map_of gs k = None \<Longrightarrow>
   phenotype_loop gs (es1 @ (k, v) # es2) acc = phenotype_loop gs (es1 @ es2) acc"
  by (induction es1 arbitrary: acc) (simp_all add: phenotype_step_skip split: sum.splits)

lemma hets_step_skip: "map_of gs k = None \<Longrightarrow> hets_step gs ph acc (k, v) = Inr acc"
  by (simp add: hets_step_def)

lemma hets_loop_skip:
  "map_of gs k = None \<Longrightarrow>
   hets_loop gs ph (es1 @ (k, v) # es2) acc = hets_loop gs ph (es1 @ es2) acc"
  by (induction es1 arbitrary: acc) (simp_all add: hets_step_skip split: sum.splits)

lemma getPhenotype_skip:
  "map_of (genes (morphData s)) k = None \<Longrightarrow>
   fst (getPhenotype (s\<lparr>genotype := es1 @ (k, v) # es2\<rparr>)) = fst (getPhenotype (s\<lparr>genotype := es1 @ es2\<rparr>))"
  by (simp add: getPhenotype_def phenotype_loop_skip split: option.splits sum.splits)

text \<open>
  C2, as stated, fails: the allele value \<^verbatim>\<open>null\<close> on a catalog gene makes all four
  queries throw a \<^verbatim>\<open>TypeError\<close>, and a one-element allele array is not treated as
  absent: \<^verbatim>\<open>{anaconda: [anaconda]}\<close> expresses anaconda.
\<close>

theorem C2_counterexample:
  "fst (getPhenotype (exampleSnake ''western'' [(''albino'', Null)])) = Inl TypeError \<and>
   fst (getHetGenes (exampleSnake ''western'' [(''albino'', Null)])) = Inl TypeError \<and>
   fst (getDisplayName (exampleSnake ''western'' [(''albino'', Null)])) = Inl TypeError \<and>
   fst (calculatePrice (exampleSnake ''western'' [(''albino'', Null)])) = Inl TypeError \<and>
   fst (getPhenotype (exampleSnake ''western'' [(''anaconda'', Arr [Str ''anaconda''])]))
     = Inr [''anaconda'']"
proof -
  have 1: "fst (getPhenotype (exampleSnake ''western'' [(''albino'', Null)])) = Inl TypeError"
    by (simp add: example_defs getPhenotype_def phenotype_step_def)
  have 2: "fst (getPhenotype (exampleSnake ''western'' [(''anaconda'', Arr [Str ''anaconda''])]))
     = Inr [''anaconda'']"
    by (simp add: example_defs getPhenotype_def phenotype_step_def nonWild_def)
  from 1 2 getHetGenes_Inl [OF 1] getDisplayName_Inl [OF 1] calculatePrice_Inl [OF 1]
  show ?thesis by simp
qed

text \<open>
  C2, amended: when every entry of a gene the catalog knows holds an array,
  \<^verbatim>\<open>getPhenotype\<close>, \<^verbatim>\<open>getHetGenes\<close>, \<^verbatim>\<open>getDisplayName\<close> and
  \<^verbatim>\<open>calculatePrice\<close> all return a value. For every creature, an entry whose gene id
  is not in the catalog is skipped whatever its value: removing it changes the outcome
  of none of the four queries.
\<close>

theorem C2_queries_total:
  assumes "well_shaped (genes (morphData s)) (genotype s)"
  shows "(\<exists>ph. fst (getPhenotype s) = Inr ph) \<and>
         (\<exists>hets. fst (getHetGenes s) = Inr hets) \<and>
         (\<exists>nm. fst (getDisplayName s) = Inr nm) \<and>
         (\<exists>price. fst (calculatePrice s) = Inr price) \<and>
         (\<forall>k v es1 es2. map_of (genes (morphData s)) k = None \<longrightarrow>
            fst (getPhenotype (s\<lparr>genotype := es1 @ (k, v) # es2\<rparr>))
              = fst (getPhenotype (s\<lparr>genotype := es1 @ es2\<rparr>)) \<and>
            fst (getHetGenes (s\<lparr>genotype := es1 @ (k, v) # es2\<rparr>))
              = fst (getHetGenes (s\<lparr>genotype := es1 @ es2\<rparr>)) \<and>
            fst (getDisplayName (s\<lparr>genotype := es1 @ (k, v) # es2\<rparr>))
              = fst (getDisplayName (s\<lparr>genotype := es1 @ es2\<rparr>)) \<and>
            fst (calculatePrice (s\<lparr>genotype := es1 @ (k, v) # es2\<rparr>))
              = fst (calculatePrice (s\<lparr>genotype := es1 @ es2\<rparr>)))"
proof -
  obtain ph where ph: "fst (getPhenotype s) = Inr ph"
    using getPhenotype_total [OF assms] by blast
  have h: "hets_loop (genes (morphData s)) ph (genotype s) []
             = Inr (concat (map (entry_hets (genes (morphData s)) ph) (genotype s)))"
    using hets_loop_ok [OF assms, of ph "[]"] by simp
  have 2: "\<exists>hets. fst (getHetGenes s) = Inr hets" by (simp add: getHetGenes_fst ph h)
  have 3: "\<exists>nm. fst (getDisplayName s) = Inr nm" by (simp add: getDisplayName_fst ph)
  have 4: "\<exists>price. fst (calculatePrice s) = Inr price" by (simp add: calculatePrice_fst ph h)
  have 5: "fst (getPhenotype (s\<lparr>genotype := es1 @ (k, v) # es2\<rparr>))
              = fst (getPhenotype (s\<lparr>genotype := es1 @ es2\<rparr>)) \<and>
            fst (getHetGenes (s\<lparr>genotype := es1 @ (k, v) # es2\<rparr>))
              = fst (getHetGenes (s\<lparr>genotype := es1 @ es2\<rparr>)) \<and>
            fst (getDisplayName (s\<lparr>genotype := es1 @ (k, v) # es2\<rparr>))
              = fst (getDisplayName (s\<lparr>genotype := es1 @ es2\<rparr>)) \<and>
            fst (calculatePrice (s\<lparr>genotype := es1 @ (k, v) # es2\<rparr>))
              = fst (calculatePrice (s\<lparr>genotype := es1 @ es2\<rparr>))"
    if k: "map_of (genes (morphData s)) k = None" for k v es1 es2
  proof -
    let ?u = "s\<lparr>genotype := es1 @ (k, v) # es2\<rparr>" and ?t = "s\<lparr>genotype := es1 @ es2\<rparr>"
    have p: "fst (getPhenotype ?u) = fst (getPhenotype ?t)"
      by (rule getPhenotype_skip [OF k])
    have hl: "hets_loop (genes (morphData ?t)) ph' (genotype ?u) []
                   = hets_loop (genes (morphData ?t)) ph' (genotype ?t) []" for ph'
      using k by (simp add: hets_loop_skip)
    have "morphData ?u = morphData ?t" "species ?u = species ?t" "sex ?u = sex ?t"
      "snake_stats ?u = snake_stats ?t" by simp_all
    from queries_cong [OF this p hl] p show ?thesis by blast
  qed
  from ph 2 3 4 5 show ?thesis by blast
qed

theorem C2_queries_total_witness:
  "map_of (genes exampleMorphData) ''mystery'' = None \<and>
   fst (getPhenotype (exampleSnake ''western'' [(''mystery'', Null), het ''albino'']))
     = fst (getPhenotype (exampleSnake ''western'' [het ''albino''])) \<and>
   fst (calculatePrice (exampleSnake ''western'' [(''mystery'', Null), het ''albino'']))
     = fst (calculatePrice (exampleSnake ''western'' [het ''albino''])) \<and>
   (\<exists>ph. fst (getPhenotype (exampleSnake ''western'' [(''mystery'', Null), het ''albino''])) = Inr ph) \<and>
   (\<exists>hets. fst (getHetGenes (exampleSnake ''western'' [(''mystery'', Null), het ''albino''])) = Inr hets) \<and>
   (\<exists>nm. fst (getDisplayName (exampleSnake ''western'' [(''mystery'', Null), het ''albino''])) = Inr nm) \<and>
   (\<exists>price. fst (calculatePrice (exampleSnake ''western'' [(''mystery'', Null), het ''albino''])) = Inr price)"
proof -
  let ?s = "exampleSnake ''western'' [(''mystery'', Null), het ''albino'']"
  have 1: "well_shaped (genes (morphData ?s)) (genotype ?s)"
    by (simp add: example_defs well_shaped_def)
  have 2: "map_of (genes (morphData ?s)) ''mystery'' = None"
    by (simp add: example_defs)
  have 3: "?s\<lparr>genotype := [] @ (''mystery'', Null) # [het ''albino'']\<rparr> = ?s"
    "?s\<lparr>genotype := [] @ [het ''albino'']\<rparr> = exampleSnake ''western'' [het ''albino'']"
    "morphData ?s = exampleMorphData"
    by (simp_all add: exampleSnake_def Snake_def)
  note t = C2_queries_total [OF 1]
  from t have a: "(\<exists>ph. fst (getPhenotype ?s) = Inr ph) \<and>
         (\<exists>hets. fst (getHetGenes ?s) = Inr hets) \<and>
         (\<exists>nm. fst (getDisplayName ?s) = Inr nm) \<and>
         (\<exists>price. fst (calculatePrice ?s) = Inr price)" by blast
  from t 2 have "fst (getPhenotype (?s\<lparr>genotype := [] @ (''mystery'', Null) # [het ''albino'']\<rparr>))
              = fst (getPhenotype (?s\<lparr>genotype := [] @ [het ''albino'']\<rparr>)) \<and>
            fst (calculatePrice (?s\<lparr>genotype := [] @ (''mystery'', Null) # [het ''albino'']\<rparr>))
              = fst (calculatePrice (?s\<lparr>genotype := [] @ [het ''albino'']\<rparr>))" by blast
  then have b: "fst (getPhenotype ?s) = fst (getPhenotype (exampleSnake ''western'' [het ''albino''])) \<and>
     fst (calculatePrice ?s) = fst (calculatePrice (exampleSnake ''western'' [het ''albino'']))"
    by (simp only: 3)
  from 2 have c: "map_of (genes exampleMorphData) ''mystery'' = None" by (simp only: 3)
  from a b c show ?thesis by blast
qed

subsection \<open>Incomplete-dominant and recessive genes\<close>

lemma entry_traits_incdom:
  assumes "map_of gs g = Some gene" and "inheritance gene = ''incompleteDominant''"
    and "superForm gene = Some sf" and "sf \<noteq> []"
  shows "entry_traits gs (g, Arr alleles) =
     (if length (filter nonWild alleles) = 1 then [g]
      else if length (filter nonWild alleles) = 2 then [sf] else [])"
  using assms by (simp add: entry_traits_def phenotype_step_def)

text \<open>
  C3: for a fresh creature with a well-shaped genotype and an incomplete-dominant gene
  \<open>g\<close> with super form \<open>sf\<close>, the entry of \<open>g\<close> contributes to the phenotype, at its
  place in the genotype order, exactly \<open>g\<close> when one of its alleles is non-wild, exactly
  \<open>sf\<close> (and not \<open>g\<close>) when two are, and nothing when none is.
\<close>

theorem C3_incomplete_dominant:
  assumes "phenotype_cache s = None"
    and "well_shaped (genes (morphData s)) (genotype s)"
    and "genotype s = es1 @ (g, Arr alleles) # es2"
    and "map_of (genes (morphData s)) g = Some gene"
    and "inheritance gene = ''incompleteDominant''"
    and "superForm gene = Some sf" and "sf \<noteq> []"
  shows "fst (getPhenotype s) =
     Inr (concat (map (entry_traits (genes (morphData s))) es1) @
          (if length (filter nonWild alleles) = 1 then [g]
           else if length (filter nonWild alleles) = 2 then [sf]
           else []) @
          concat (map (entry_traits (genes (morphData s))) es2))"
  unfolding getPhenotype_fresh [OF assms(1,2)] assms(3)
  by (simp add: entry_traits_incdom [OF assms(4-7)])

theorem C3_incomplete_dominant_witness:
  "fst (getPhenotype (exampleSnake ''western'' [hom ''anaconda''])) = Inr [''superconda''] \<and>
   fst (getPhenotype (exampleSnake ''western'' [het ''anaconda''])) = Inr [''anaconda''] \<and>
   fst (getPhenotype (exampleSnake ''western'' [(''anaconda'', Arr [Str ''wild'', Str ''+''])])) = Inr []"
proof -
  let ?gene = "mk_gene ''Anaconda'' ''incompleteDominant'' 2 (Some ''superconda'')"
  have c: "phenotype_cache (exampleSnake ''western'' g) = None" for g
    by (simp add: example_defs)
  have w: "well_shaped (genes (morphData (exampleSnake ''western'' [(''anaconda'', Arr xs)])))
             (genotype (exampleSnake ''western'' [(''anaconda'', Arr xs)]))" for xs
    by (simp add: example_defs well_shaped_def)
  have g: "genotype (exampleSnake ''western'' [(''anaconda'', Arr xs)]) = [] @ (''anaconda'', Arr xs) # []" for xs
    by (simp add: example_defs)
  have m: "map_of (genes (morphData (exampleSnake ''western'' g))) ''anaconda'' = Some ?gene" for g
    by (simp add: example_defs)
  have i: "inheritance ?gene = ''incompleteDominant''" "superForm ?gene = Some ''superconda''"
    "''superconda'' \<noteq> []"
    by (simp_all add: mk_gene_def)
  note t = C3_incomplete_dominant [OF c w g m i]
  from t [of "[Str ''anaconda'', Str ''anaconda'']"] t [of "[Str ''anaconda'', Str ''wild'']"]
    t [of "[Str ''wild'', Str ''+'']"]
  show ?thesis by (simp add: hom_def het_def nonWild_def)
qed

lemma entry_traits_mem:
  assumes "t \<in> set (entry_traits gs entry)"
  shows "t = fst entry \<or> (\<exists>gene. map_of gs (fst entry) = Some gene \<and> superForm gene = Some t)"
proof (cases "map_of gs (fst entry)")
  case None
  with assms show ?thesis by (simp add: entry_traits_def phenotype_step_def)
next
  case (Some gene)
  with assms show ?thesis
    by (cases "js_get (snd entry) 0"; cases "js_get (snd entry) (Suc 0)";
        cases "js_filter nonWild (snd entry)"; cases "js_some nonWild (snd entry)")
       (auto simp: entry_traits_def phenotype_step_def Let_def split: if_splits)
qed

lemma entry_traits_recessive:
  assumes "map_of gs g = Some gene" and "inheritance gene = ''recessive''"
  shows "entry_traits gs (g, Arr alleles) =
     (if js_get (Arr alleles) 0 = Inr (Str g) \<and> js_get (Arr alleles) 1 = Inr (Str g) then [g] else [])"
  using assms by (simp add: entry_traits_def phenotype_step_def)

lemma entry_hets_recessive:
  assumes "map_of gs g = Some gene" and "inheritance gene = ''recessive''"
  shows "entry_hets gs ph (g, Arr alleles) =
     (if length (filter (\<lambda>a. a = Str g) alleles) = 1 \<and> g \<notin> set ph then [gene_name gene] else [])"
  using assms by (simp add: entry_hets_def hets_step_def)

lemma two_slots_two_copies:
  assumes "js_get (Arr alleles) 0 = Inr (Str g)" and "js_get (Arr alleles) 1 = Inr (Str g)"
  shows "2 \<le> length (filter (\<lambda>a. a = Str g) alleles)"
proof (cases alleles)
  case Nil
  with assms show ?thesis by simp
next
  case (Cons a as)
  with assms show ?thesis by (cases as) (simp_all split: if_splits)
qed

text \<open>
  C4: for a fresh creature with a well-shaped genotype (distinct keys) and a recessive
  gene \<open>g\<close> of the catalog, in a catalog where no super form is called \<open>g\<close>: \<open>g\<close> is
  in the phenotype if and only if the genotype holds alleles for \<open>g\<close> and
  \<^verbatim>\<open>alleles[0]\<close> and \<^verbatim>\<open>alleles[1]\<close> both equal \<open>g\<close>; and when exactly one allele
  equals \<open>g\<close>, the gene's name is reported by \<^verbatim>\<open>getHetGenes\<close> and \<open>g\<close> is not in
  the phenotype.
\<close>

theorem C4_recessive:
  assumes "phenotype_cache s = None"
    and "well_shaped (genes (morphData s)) (genotype s)"
    and "distinct (map fst (genotype s))"
    and "map_of (genes (morphData s)) g = Some gene"
    and "inheritance gene = ''recessive''"
    and "\<forall>h gh. map_of (genes (morphData s)) h = Some gh \<longrightarrow> superForm gh \<noteq> Some g"
  shows "\<exists>ph hets. fst (getPhenotype s) = Inr ph \<and> fst (getHetGenes s) = Inr hets \<and>
           (g \<in> set ph \<longleftrightarrow>
              (\<exists>alleles. map_of (genotype s) g = Some (Arr alleles) \<and>
                 js_get (Arr alleles) 0 = Inr (Str g) \<and> js_get (Arr alleles) 1 = Inr (Str g))) \<and>
           (\<forall>alleles. map_of (genotype s) g = Some (Arr alleles) \<and>
              length (filter (\<lambda>a. a = Str g) alleles) = 1 \<longrightarrow>
              gene_name gene \<in> set hets \<and> g \<notin> set ph)"
proof -
  let ?gs = "genes (morphData s)"
  let ?ph = "concat (map (entry_traits ?gs) (genotype s))"
  let ?hets = "concat (map (entry_hets ?gs ?ph) (genotype s))"
  let ?both = "\<lambda>alleles. js_get (Arr alleles) 0 = Inr (Str g) \<and> js_get (Arr alleles) 1 = Inr (Str g)"
  have ph: "fst (getPhenotype s) = Inr ?ph" by (rule getPhenotype_fresh [OF assms(1,2)])
  have hets: "fst (getHetGenes s) = Inr ?hets"
    using hets_loop_ok [OF assms(2), of ?ph "[]"] by (simp add: getHetGenes_fst ph)
  have mem: "map_of (genotype s) g = Some v \<longleftrightarrow> (g, v) \<in> set (genotype s)" for v
    using assms(3) by (rule map_of_eq_Some_iff)
  have own: "\<exists>alleles. snd entry = Arr alleles \<and> map_of (genotype s) g = Some (Arr alleles)"
    if e: "entry \<in> set (genotype s)" and t: "g \<in> set (entry_traits ?gs entry)" for entry
  proof -
    from entry_traits_mem [OF t] assms(6) have k: "fst entry = g" by auto
    from assms(2) e have "map_of ?gs (fst entry) \<noteq> None \<longrightarrow> is_array (snd entry)"
      by (simp add: well_shaped_def list_all_iff)
    with k assms(4) have "is_array (snd entry)" by simp
    then obtain alleles where a: "snd entry = Arr alleles" by (cases "snd entry") simp_all
    from e k a have "(g, Arr alleles) \<in> set (genotype s)" by (metis prod.collapse)
    with a mem show ?thesis by blast
  qed
  have iff: "g \<in> set ?ph \<longleftrightarrow> (\<exists>alleles. map_of (genotype s) g = Some (Arr alleles) \<and> ?both alleles)"
  proof
    assume "g \<in> set ?ph"
    then obtain entry where e: "entry \<in> set (genotype s)" "g \<in> set (entry_traits ?gs entry)"
      by auto
    from own [OF e] obtain alleles where a: "snd entry = Arr alleles"
      "map_of (genotype s) g = Some (Arr alleles)" by blast
    from entry_traits_mem [OF e(2)] assms(6) have "fst entry = g" by auto
    with a(1) have "entry = (g, Arr alleles)" by (metis prod.collapse)
    with e(2) have "?both alleles"
      by (simp add: entry_traits_recessive [OF assms(4,5)] split: if_splits)
    with a(2) show "\<exists>alleles. map_of (genotype s) g = Some (Arr alleles) \<and> ?both alleles" by blast
  next
    assume "\<exists>alleles. map_of (genotype s) g = Some (Arr alleles) \<and> ?both alleles"
    then obtain alleles where a: "map_of (genotype s) g = Some (Arr alleles)" "?both alleles"
      by blast
    from a(2) have "g \<in> set (entry_traits ?gs (g, Arr alleles))"
      by (simp add: entry_traits_recessive [OF assms(4,5)])
    moreover from a(1) mem have "(g, Arr alleles) \<in> set (genotype s)" by simp
    ultimately show "g \<in> set ?ph" by auto
  qed
  have het: "gene_name gene \<in> set ?hets \<and> g \<notin> set ?ph"
    if a: "map_of (genotype s) g = Some (Arr alleles)"
      and one: "length (filter (\<lambda>a. a = Str g) alleles) = 1" for alleles
  proof -
    have nb: "\<not> ?both alleles" using two_slots_two_copies [of alleles g] one by auto
    have np: "g \<notin> set ?ph"
    proof
      assume "g \<in> set ?ph"
      with iff obtain al where "map_of (genotype s) g = Some (Arr al)" "?both al" by blast
      with a nb show False by simp
    qed
    have "gene_name gene \<in> set (entry_hets ?gs ?ph (g, Arr alleles))"
      using one np by (simp add: entry_hets_recessive [OF assms(4,5)])
    moreover from a mem have "(g, Arr alleles) \<in> set (genotype s)" by simp
    ultimately have "gene_name gene \<in> set ?hets" by auto
    with np show ?thesis by simp
  qed
  show ?thesis
  proof (intro exI conjI allI impI)
    show "fst (getPhenotype s) = Inr ?ph" by (rule ph)
    show "fst (getHetGenes s) = Inr ?hets" by (rule hets)
    show "g \<in> set ?ph \<longleftrightarrow> (\<exists>alleles. map_of (genotype s) g = Some (Arr alleles) \<and> ?both alleles)"
      by (rule iff)
    show "gene_name gene \<in> set ?hets"
      if "map_of (genotype s) g = Some (Arr alleles) \<and>
          length (filter (\<lambda>a. a = Str g) alleles) = 1" for alleles
      using het [of alleles] that by blast
    show "g \<notin> set ?ph"
      if "map_of (genotype s) g = Some (Arr alleles) \<and>
          length (filter (\<lambda>a. a = Str g) alleles) = 1" for alleles
      using het [of alleles] that by blast
  qed
qed

theorem C4_recessive_witness:
  "(\<exists>ph hets. fst (getPhenotype (exampleSnake ''western'' [het ''albino''])) = Inr ph \<and>
      fst (getHetGenes (exampleSnake ''western'' [het ''albino''])) = Inr hets \<and>
      ''Albino'' \<in> set hets \<and> ''albino'' \<notin> set ph) \<and>
   (\<exists>ph. fst (getPhenotype (exampleSnake ''western'' [hom ''albino''])) = Inr ph \<and> ''albino'' \<in> set ph)"
proof -
  let ?gene = "mk_gene ''Albino'' ''recessive'' 1 None"
  have c: "phenotype_cache (exampleSnake ''western'' g) = None" for g
    by (simp add: example_defs)
  have w: "well_shaped (genes (morphData (exampleSnake ''western'' [(''albino'', Arr xs)])))
             (genotype (exampleSnake ''western'' [(''albino'', Arr xs)]))" for xs
    by (simp add: example_defs well_shaped_def)
  have d: "distinct (map fst (genotype (exampleSnake ''western'' [(''albino'', Arr xs)])))" for xs
    by (simp add: example_defs)
  have g: "map_of (genotype (exampleSnake ''western'' [(''albino'', Arr xs)])) ''albino'' = Some (Arr xs)"
    for xs by (simp add: example_defs)
  have m: "map_of (genes (morphData (exampleSnake ''western'' g))) ''albino'' = Some ?gene" for g
    by (simp add: example_defs)
  have i: "inheritance ?gene = ''recessive''" by (simp add: mk_gene_def)
  have n: "\<forall>h gh. map_of (genes (morphData (exampleSnake ''western'' g))) h = Some gh \<longrightarrow>
             superForm gh \<noteq> Some ''albino''" for g
    by (auto simp: example_defs split: if_splits)
  note t = C4_recessive [OF c w d m i n]
  have nm: "gene_name ?gene = ''Albino''" by (simp add: mk_gene_def)
  from t [of "[Str ''albino'', Str ''wild'']"] t [of "[Str ''albino'', Str ''albino'']"]
  show ?thesis by (simp add: hom_def het_def nm g) blast
qed

subsection \<open>Display name\<close>

lemma space_in_join: "CHR '' '' \<in> set (js_join '' '' (x # y # ys))"
  by simp

lemma join_Normal:
  assumes "js_join '' '' xs = ''Normal''"
  shows "xs = [''Normal'']"
proof (cases xs)
  case Nil
  with assms show ?thesis by simp
next
  case (Cons x ys)
  show ?thesis
  proof (cases ys)
    case Nil
    with Cons assms show ?thesis by simp
  next
    case (Cons y zs)
    have "CHR '' '' \<in> set (js_join '' '' xs)"
      unfolding \<open>xs = x # ys\<close> Cons by (rule space_in_join)
    with assms show ?thesis by simp
  qed
qed

lemma js_join_Cons: "js_join sep (x # xs) = x @ concat (map (\<lambda>n. sep @ n) xs)"
  by (induction xs arbitrary: x) simp_all

lemma join_Normal_iff: "js_join '' '' xs = ''Normal'' \<longleftrightarrow> xs = [''Normal'']"
  using join_Normal by auto

text \<open>
  C9, as stated, fails in its "exactly when": in a catalog with a dominant gene named
  Normal, a creature that expresses it has the non-empty phenotype \<open>[normal]\<close> and is
  displayed as \<^verbatim>\<open>Normal\<close>.
\<close>

theorem C9_counterexample:
  "fst (getPhenotype (snakeOf normalMorphData [(''normal'', Arr [Str ''normal'', Str ''wild''])]))
     = Inr [''normal''] \<and>
   fst (getDisplayName (snakeOf normalMorphData [(''normal'', Arr [Str ''normal'', Str ''wild''])]))
     = Inr ''Normal''"
proof -
  let ?s = "snakeOf normalMorphData [(''normal'', Arr [Str ''normal'', Str ''wild''])]"
  have 1: "fst (getPhenotype ?s) = Inr [''normal'']"
    by (simp add: snakeOf_def Snake_def normalMorphData_def exampleMorphData_def mk_gene_def
        getPhenotype_def phenotype_step_def nonWild_def)
  have "fst (getDisplayName ?s) = Inr ''Normal''"
    unfolding getDisplayName_fst 1
    by (simp add: snakeOf_def Snake_def normalMorphData_def exampleMorphData_def exampleCombos_def
        mk_gene_def mk_combo_def combo_matches_def visual_name_def)
  with 1 show ?thesis by simp
qed

text \<open>
  C9, amended: when the phenotype is \<open>ph\<close>, \<^verbatim>\<open>getDisplayName\<close> returns \<^verbatim>\<open>Normal\<close>
  if \<open>ph\<close> is empty; otherwise the name of the first combo morph, in catalog order,
  whose \<^verbatim>\<open>requires\<close> set is a subset of \<open>ph\<close>; otherwise the display names of the
  expressed traits (the gene's name, or the trait id itself when the catalog has no such
  gene), the first followed by each further one behind a single space. The result is
  \<^verbatim>\<open>Normal\<close> exactly when \<open>ph\<close> is empty, or the first matching combo is named
  Normal, or no combo matches and the only expressed trait is displayed as Normal.
\<close>

theorem C9_display_name:
  assumes "fst (getPhenotype s) = Inr ph"
    and "names = map (\<lambda>t. case map_of (genes (morphData s)) t of
                             Some gene \<Rightarrow> gene_name gene
                           | None \<Rightarrow> (case map_of Object_prototype t of
                                         Some inherited \<Rightarrow> inherited
                                       | None \<Rightarrow> t)) ph"
    and "first = find (\<lambda>c. set (requires c) \<subseteq> set ph) (map snd (comboMorphs (morphData s)))"
  shows "fst (getDisplayName s) =
           Inr (if ph = [] then ''Normal''
                else (case first of
                        Some c \<Rightarrow> combo_name c
                      | None \<Rightarrow> hd names @ concat (map (\<lambda>n. '' '' @ n) (tl names)))) \<and>
         (fst (getDisplayName s) = Inr ''Normal'' \<longleftrightarrow>
            ph = [] \<or> (\<exists>c. first = Some c \<and> combo_name c = ''Normal'') \<or>
            (first = None \<and> names = [''Normal'']))"
proof -
  let ?cs = "map snd (comboMorphs (morphData s))"
  have m: "combo_matches ph = (\<lambda>c. set (requires c) \<subseteq> set ph)"
    by (rule ext) (rule combo_matches_subset)
  have vis: "map (visual_name (genes (morphData s))) ph = names"
    unfolding assms(2) by (rule map_cong [OF refl]) (simp add: visual_name_def)
  have raw: "fst (getDisplayName s) =
           Inr (if ph = [] then ''Normal''
                else (case first of
                        Some c \<Rightarrow> combo_name c
                      | None \<Rightarrow> js_join '' '' names))"
    unfolding getDisplayName_Inr [OF assms(1)] m vis assms(3) by simp
  have ne: "names \<noteq> []" if "ph \<noteq> []" using that by (simp add: assms(2))
  have j: "js_join '' '' names = hd names @ concat (map (\<lambda>n. '' '' @ n) (tl names))"
    if "ph \<noteq> []"
    using ne [OF that] js_join_Cons [of "'' ''" "hd names" "tl names"] by simp
  have eq: "fst (getDisplayName s) =
           Inr (if ph = [] then ''Normal''
                else (case first of
                        Some c \<Rightarrow> combo_name c
                      | None \<Rightarrow> hd names @ concat (map (\<lambda>n. '' '' @ n) (tl names))))"
  proof (cases "ph = []")
    case True
    then show ?thesis by (simp add: raw)
  next
    case False
    show ?thesis
    proof (cases first)
      case None
      have "fst (getDisplayName s) = Inr (js_join '' '' names)"
        using None False by (simp add: raw)
      then show ?thesis
        unfolding j [OF False] using None False by (simp only: if_False option.case simp_thms)
    next
      case (Some c)
      then show ?thesis using False by (simp add: raw)
    qed
  qed
  have iff: "fst (getDisplayName s) = Inr ''Normal'' \<longleftrightarrow>
            ph = [] \<or> (\<exists>c. first = Some c \<and> combo_name c = ''Normal'') \<or>
            (first = None \<and> names = [''Normal''])"
  proof (cases "ph = []")
    case True
    then show ?thesis by (simp add: raw)
  next
    case False
    show ?thesis
    proof (cases first)
      case None
      then show ?thesis using False by (simp add: raw join_Normal_iff)
    next
      case (Some c)
      then show ?thesis using False by (simp add: raw)
    qed
  qed
  from eq iff show ?thesis by (rule conjI)
qed

theorem C9_display_name_witness:
  "fst (getDisplayName (exampleSnake ''western'' [hom ''albino'', hom ''axanthic''])) = Inr ''Snow'' \<and>
   fst (getDisplayName (exampleSnake ''western'' [hom ''albino'', het ''cinnamon'']))
     = Inr ''Albino Cinnamon'' \<and>
   fst (getDisplayName (exampleSnake ''western'' [het ''albino''])) = Inr ''Normal'' \<and>
   fst (getDisplayName (exampleSnake ''western'' [hom ''anaconda''])) = Inr ''superconda'' \<and>
   fst (getDisplayName (snakeOf inheritedMorphData [hom ''anaconda''])) = Inr ''Object''"
proof -
  have p1: "fst (getPhenotype (exampleSnake ''western'' [hom ''albino'', hom ''axanthic'']))
              = Inr [''albino'', ''axanthic'']"
    and p2: "fst (getPhenotype (exampleSnake ''western'' [hom ''albino'', het ''cinnamon'']))
              = Inr [''albino'', ''cinnamon'']"
    and p3: "fst (getPhenotype (exampleSnake ''western'' [het ''albino''])) = Inr []"
    and p4: "fst (getPhenotype (exampleSnake ''western'' [hom ''anaconda''])) = Inr [''superconda'']"
    by (simp_all add: example_defs getPhenotype_def phenotype_step_def nonWild_def)
  have p5: "fst (getPhenotype (snakeOf inheritedMorphData [hom ''anaconda''])) = Inr [''constructor'']"
    by (simp add: snakeOf_def Snake_def inheritedMorphData_def exampleMorphData_def mk_gene_def
        hom_def getPhenotype_def phenotype_step_def nonWild_def)
  have m: "morphData (exampleSnake sp g) = exampleMorphData" for sp g
    by (simp add: exampleSnake_def Snake_def)
  have m5: "morphData (snakeOf inheritedMorphData g) = inheritedMorphData" for g
    by (simp add: snakeOf_def Snake_def)
  have 1: "fst (getDisplayName (exampleSnake ''western'' [hom ''albino'', hom ''axanthic'']))
             = Inr ''Snow''"
    using C9_display_name [OF p1 refl refl]
    by (simp add: m exampleMorphData_def exampleCombos_def mk_combo_def)
  have 2: "fst (getDisplayName (exampleSnake ''western'' [hom ''albino'', het ''cinnamon'']))
             = Inr ''Albino Cinnamon''"
    using C9_display_name [OF p2 refl refl]
    by (simp add: m exampleMorphData_def exampleCombos_def exampleGenes_def mk_combo_def mk_gene_def)
  have 3: "fst (getDisplayName (exampleSnake ''western'' [het ''albino''])) = Inr ''Normal''"
    using C9_display_name [OF p3 refl refl] by simp
  have 4: "fst (getDisplayName (exampleSnake ''western'' [hom ''anaconda''])) = Inr ''superconda''"
    using C9_display_name [OF p4 refl refl]
    by (simp add: m exampleMorphData_def exampleCombos_def exampleGenes_def mk_combo_def mk_gene_def
        Object_prototype_def)
  have 5: "fst (getDisplayName (snakeOf inheritedMorphData [hom ''anaconda''])) = Inr ''Object''"
    using C9_display_name [OF p5 refl refl, unfolded m5]
    by (simp add: inheritedMorphData_def exampleMorphData_def exampleCombos_def mk_combo_def
        mk_gene_def Object_prototype_def)
  from 1 2 3 4 5 show ?thesis by simp
qed

subsection \<open>The combo step of the price\<close>

lemma combo_price_loop_find:
  "combo_price_loop ph price cs =
     (case find (combo_matches ph) cs of
        None \<Rightarrow> price
      | Some c \<Rightarrow> max price (js_or (basePrice c) price))"
  by (induction cs) simp_all

lemma combo_price_loop_ge: "price \<le> combo_price_loop ph price cs"
  by (simp add: combo_price_loop_find split: option.splits)

lemma find_first:
  assumes "\<forall>c' \<in> set pre. \<not> P c'" and "P c"
  shows "find P (pre @ c # post) = Some c"
  using assms by (induction pre) simp_all

lemma js_or_Some: "b \<noteq> 0 \<or> 0 \<le> price \<Longrightarrow> max price (js_or (Some b) price) = max price b"
  by (auto simp: js_or_def)

text \<open>
  C7: when the combo morph \<open>c\<close> is the first in catalog order whose requirement set is
  a subset of the phenotype, the combo loop turns every running price into
  \<^verbatim>\<open>Math.max(price, c.basePrice || price)\<close>, which is \<open>max price b\<close> for a base price
  \<open>b\<close> (non-zero, or any \<open>b\<close> when the price is not negative); the result never lies
  below the running price and does not depend on the combos after \<open>c\<close>. The price
  returned by \<^verbatim>\<open>calculatePrice\<close> is the remaining factors applied to that maximum.
\<close>

theorem C7_combo_override:
  assumes "fst (getPhenotype s) = Inr ph" and "fst (getHetGenes s) = Inr hets"
    and "map snd (comboMorphs (morphData s)) = pre @ c # post"
    and "\<forall>c' \<in> set pre. \<not> set (requires c') \<subseteq> set ph"
    and "set (requires c) \<subseteq> set ph"
  shows "(\<forall>price.
            combo_price_loop ph price (pre @ c # post) = max price (js_or (basePrice c) price) \<and>
            price \<le> combo_price_loop ph price (pre @ c # post) \<and>
            (\<forall>post'. combo_price_loop ph price (pre @ c # post')
                        = combo_price_loop ph price (pre @ c # post)) \<and>
            (\<forall>b. basePrice c = Some b \<and> (b \<noteq> 0 \<or> 0 \<le> price) \<longrightarrow>
                   combo_price_loop ph price (pre @ c # post) = max price b)) \<and>
         fst (calculatePrice s) =
           Inr (finish_price s (length hets)
                  (max (rarity_loop (morphData s) (start_price s) ph)
                       (js_or (basePrice c) (rarity_loop (morphData s) (start_price s) ph))))"
proof -
  have pre: "\<forall>c' \<in> set pre. \<not> combo_matches ph c'"
    using assms(4) by (simp add: combo_matches_subset)
  have c: "combo_matches ph c" using assms(5) by (simp add: combo_matches_subset)
  have loop: "combo_price_loop ph price (pre @ c # post') = max price (js_or (basePrice c) price)"
    for price post'
    by (simp add: combo_price_loop_find find_first [OF pre c])
  have h: "hets_loop (genes (morphData s)) ph (genotype s) [] = Inr hets"
    using assms(2) by (simp add: getHetGenes_fst assms(1))
  have "fst (calculatePrice s) =
           Inr (finish_price s (length hets)
                  (max (rarity_loop (morphData s) (start_price s) ph)
                       (js_or (basePrice c) (rarity_loop (morphData s) (start_price s) ph))))"
    by (simp add: calculatePrice_fst assms(1) h assms(3) loop)
  moreover have "combo_price_loop ph price (pre @ c # post) = max price b"
    if "basePrice c = Some b \<and> (b \<noteq> 0 \<or> 0 \<le> price)" for b price
    using that js_or_Some [of b price] by (simp add: loop)
  ultimately show ?thesis using loop combo_price_loop_ge by simp
qed

theorem C7_combo_override_witness:
  "fst (getPhenotype (exampleSnake ''western'' [hom ''sable'', hom ''albino'', hom ''axanthic'']))
     = Inr [''sable'', ''albino'', ''axanthic''] \<and>
   fst (getHetGenes (exampleSnake ''western'' [hom ''sable'', hom ''albino'', hom ''axanthic'']))
     = Inr [] \<and>
   map snd (comboMorphs exampleMorphData)
     = [] @ mk_combo ''Snow'' [''albino'', ''axanthic''] (Some 800) #
         [mk_combo ''Yeti'' [''albino'', ''axanthic'', ''anaconda''] (Some 2000),
          mk_combo ''Sunburst'' [''sable'', ''albino''] (Some 3000),
          mk_combo ''Subzero'' [''albino'', ''superarctic''] (Some 5000)] \<and>
   combo_price_loop [''sable'', ''albino'', ''axanthic''] 750 (map snd (comboMorphs exampleMorphData))
     = 800 \<and>
   fst (calculatePrice (exampleSnake ''western'' [hom ''sable'', hom ''albino'', hom ''axanthic'']))
     = Inr 800"
proof -
  let ?s = "exampleSnake ''western'' [hom ''sable'', hom ''albino'', hom ''axanthic'']"
  let ?ph = "[''sable'', ''albino'', ''axanthic'']"
  let ?c = "mk_combo ''Snow'' [''albino'', ''axanthic''] (Some 800)"
  let ?post = "[mk_combo ''Yeti'' [''albino'', ''axanthic'', ''anaconda''] (Some 2000),
          mk_combo ''Sunburst'' [''sable'', ''albino''] (Some 3000),
          mk_combo ''Subzero'' [''albino'', ''superarctic''] (Some 5000)]"
  have 1: "fst (getPhenotype ?s) = Inr ?ph"
    by (simp add: example_defs getPhenotype_def phenotype_step_def)
  have 2: "fst (getHetGenes ?s) = Inr []"
    unfolding getHetGenes_fst 1 by (simp add: example_defs hets_step_def)
  have m: "morphData ?s = exampleMorphData" by (simp add: exampleSnake_def Snake_def)
  have 3: "map snd (comboMorphs (morphData ?s)) = [] @ ?c # ?post"
    by (simp add: m exampleMorphData_def exampleCombos_def)
  have 4: "\<forall>c' \<in> set []. \<not> set (requires c') \<subseteq> set ?ph" by simp
  have 5: "set (requires ?c) \<subseteq> set ?ph" by (simp add: mk_combo_def)
  note t = C7_combo_override [OF 1 2 3 4 5]
  have r: "rarity_loop (morphData ?s) (start_price ?s) ?ph = 750"
    by (simp add: example_defs start_price_def js_or_def)
  have f: "finish_price ?s 0 800 = 800"
    by (simp add: example_defs finish_price_def js_or_def Math_round_def)
  have b: "basePrice ?c = Some 800" by (simp add: mk_combo_def)
  from t have "fst (calculatePrice ?s) =
           Inr (finish_price ?s (length ([]::string list))
                  (max (rarity_loop (morphData ?s) (start_price ?s) ?ph)
                       (js_or (basePrice ?c) (rarity_loop (morphData ?s) (start_price ?s) ?ph))))"
    by blast
  then have price: "fst (calculatePrice ?s) = Inr 800"
    unfolding r b by (simp add: js_or_def f)
  from t have "combo_price_loop ?ph 750 ([] @ ?c # ?post) = max 750 (js_or (basePrice ?c) 750)"
    by blast
  then have loop: "combo_price_loop ?ph 750 (map snd (comboMorphs exampleMorphData)) = 800"
    by (simp add: b js_or_def exampleMorphData_def exampleCombos_def)
  from 1 2 3 loop price show ?thesis by (simp only: m simp_thms)
qed

subsection \<open>Adding a trait\<close>

lemma rarity_loop_prod:
  "rarity_loop md price ph = price * prod_list (map (trait_factor md) ph)"
  by (induction ph arbitrary: price) (simp_all add: trait_factor_def split: option.splits)

lemma prod_list_nonneg:
  fixes xs :: "real list"
  shows "\<forall>x \<in> set xs. 0 \<le> x \<Longrightarrow> 0 \<le> prod_list xs"
  by (induction xs) simp_all

lemma Math_round_mono: "x \<le> y \<Longrightarrow> Math_round x \<le> Math_round y"
  by (simp add: Math_round_def floor_mono)

lemma override_floor:
  fixes p :: real
  assumes "0 \<le> p"
  shows "max p (js_or b p) = max p (js_or b 0)"
  using assms by (cases b) (auto simp: js_or_def)

lemma combo_matches_mono:
  assumes "set ph \<subseteq> set ph'" and "combo_matches ph c"
  shows "combo_matches ph' c"
  using assms by (auto simp: combo_matches_subset)

lemma well_shaped_append: "well_shaped gs (xs @ ys) \<longleftrightarrow> well_shaped gs xs \<and> well_shaped gs ys"
  by (simp add: well_shaped_def)


lemma finish_price_mono:
  assumes "p \<le> q" and "0 \<le> hetGeneBonus (pricingRules (morphData s))"
    and "0 \<le> provenBreederBonus (pricingRules (morphData s))"
    and "0 \<le> js_or (map_of (speciesMultipliers (pricingRules (morphData s))) (species s)) 1"
  shows "finish_price s n p \<le> finish_price s n q"
proof -
  let ?rules = "pricingRules (morphData s)"
  let ?h = "1 + real n * hetGeneBonus ?rules"
  let ?b = "(if clutchesProduced (snake_stats s) > 0 then provenBreederBonus ?rules else 1)"
  let ?m = "js_or (map_of (speciesMultipliers ?rules) (species s)) 1"
  have h: "0 \<le> ?h" using assms(2) by simp
  have b: "0 \<le> ?b" using assms(3) by simp
  have 1: "p * ?h \<le> q * ?h" using assms(1) h by (rule mult_right_mono)
  have 2: "p * ?h * ?b \<le> q * ?h * ?b" using 1 b by (rule mult_right_mono)
  have 3: "p * ?h * ?b * ?m \<le> q * ?h * ?b * ?m" using 2 assms(4) by (rule mult_right_mono)
  have f: "finish_price s n x = Math_round (x * ?h * ?b * ?m)" for x
    by (simp add: finish_price_def Let_def)
  show ?thesis unfolding f using 3 by (rule Math_round_mono)
qed

lemma expressed_entry_no_het:
  assumes "entry_traits gs (g, Arr alleles) \<noteq> []"
  shows "entry_hets gs ph (g, Arr alleles) = []"
proof (cases "map_of gs g")
  case None
  then show ?thesis by (simp add: entry_hets_def hets_step_def)
next
  case (Some gene)
  show ?thesis
  proof (cases "inheritance gene = ''recessive''")
    case False
    with Some show ?thesis by (simp add: entry_hets_def hets_step_def)
  next
    case True
    from assms have "js_get (Arr alleles) 0 = Inr (Str g) \<and> js_get (Arr alleles) 1 = Inr (Str g)"
      by (simp add: entry_traits_recessive [OF Some True] split: if_splits)
    then have "2 \<le> length (filter (\<lambda>a. a = Str g) alleles)"
      using two_slots_two_copies by blast
    then show ?thesis by (simp add: entry_hets_recessive [OF Some True])
  qed
qed

lemma entry_hets_cong:
  assumes "fst entry \<in> set ph \<longleftrightarrow> fst entry \<in> set ph'"
  shows "entry_hets gs ph entry = entry_hets gs ph' entry"
  using assms by (simp add: entry_hets_def hets_step_def Let_def split: option.splits sum.splits)


lemma price_parts_genotype:
  "finish_price (s\<lparr>genotype := g\<rparr>) n p = finish_price s n p"
  "start_price (s\<lparr>genotype := g\<rparr>) = start_price s"
  by (simp_all add: finish_price_def start_price_def)

text \<open>
  C8, as stated, fails: a creature expressing albino and superarctic matches the combo
  Subzero (base price 5000) and is priced 5000. Adding homozygous sable (rarity 3,
  above albino's 1) makes the earlier combo Sunburst (base price 3000) the first match,
  and the price drops to 3000.
\<close>

theorem C8_counterexample:
  "fst (getPhenotype (exampleSnake ''western'' [hom ''albino'', hom ''arctic'']))
     = Inr [''albino'', ''superarctic''] \<and>
   fst (getPhenotype (exampleSnake ''western'' [hom ''albino'', hom ''arctic'', hom ''sable'']))
     = Inr [''albino'', ''superarctic'', ''sable''] \<and>
   fst (calculatePrice (exampleSnake ''western'' [hom ''albino'', hom ''arctic''])) = Inr 5000 \<and>
   fst (calculatePrice (exampleSnake ''western'' [hom ''albino'', hom ''arctic'', hom ''sable'']))
     = Inr 3000"
proof -
  let ?a = "exampleSnake ''western'' [hom ''albino'', hom ''arctic'']"
  let ?b = "exampleSnake ''western'' [hom ''albino'', hom ''arctic'', hom ''sable'']"
  have 1: "fst (getPhenotype ?a) = Inr [''albino'', ''superarctic'']"
    by (simp add: example_defs getPhenotype_def phenotype_step_def nonWild_def)
  have 2: "fst (getPhenotype ?b) = Inr [''albino'', ''superarctic'', ''sable'']"
    by (simp add: example_defs getPhenotype_def phenotype_step_def nonWild_def)
  have 3: "hets_loop (genes (morphData ?a)) [''albino'', ''superarctic''] (genotype ?a) [] = Inr []"
    by (simp add: example_defs hets_step_def)
  have 4: "hets_loop (genes (morphData ?b)) [''albino'', ''superarctic'', ''sable''] (genotype ?b) [] = Inr []"
    by (simp add: example_defs hets_step_def)
  have 5: "fst (calculatePrice ?a) = Inr 5000"
    unfolding calculatePrice_fst 1 3
    by (simp add: example_defs hets_step_def finish_price_def start_price_def combo_matches_def
        js_or_def Math_round_def)
  have 6: "fst (calculatePrice ?b) = Inr 3000"
    unfolding calculatePrice_fst 2 4
    by (simp add: example_defs hets_step_def finish_price_def start_price_def combo_matches_def
        js_or_def Math_round_def)
  from 1 2 5 6 show ?thesis by simp
qed

text \<open>
  C8, amended: take a fresh creature with a well-shaped genotype and put in one gene
  entry that expresses one trait \<open>t\<close>, either as a further entry or in the place of
  entries that expressed nothing and reported no carrier. If the rarity factor of \<open>t\<close>
  is at least 1, \<open>t\<close> is not the key of another entry, the price factors (start price,
  factors of the traits already expressed, het bonus, proven-breeder bonus, species
  multiplier) are not negative and, in case a combo morph matched before, the combo
  morph that matches first afterwards has a base price (0 when it has none) not below
  that of the one that matched first before, then both prices are defined and the price
  does not decrease. This covers a trait that completes a combo morph and a trait that
  leaves the first match unchanged.
\<close>

theorem C8_price_monotone:
  assumes fresh: "phenotype_cache s = None"
    and g0: "genotype s = es1 @ old @ es2"
    and s': "s' = s\<lparr>genotype := es1 @ (g, Arr alleles) # es2\<rparr>"
    and ws: "well_shaped (genes (morphData s)) (genotype s)"
    and ph: "ph = concat (map (entry_traits (genes (morphData s))) (es1 @ es2))"
    and ph': "ph' = concat (map (entry_traits (genes (morphData s))) es1) @ t #
                    concat (map (entry_traits (genes (morphData s))) es2)"
    and old_traits: "concat (map (entry_traits (genes (morphData s))) old) = []"
    and old_hets: "concat (map (entry_hets (genes (morphData s)) ph) old) = []"
    and other: "t \<notin> fst ` set (es1 @ es2)"
    and tr: "entry_traits (genes (morphData s)) (g, Arr alleles) = [t]"
    and factor: "1 \<le> trait_factor (morphData s) t"
    and start: "0 \<le> start_price s"
    and factors: "\<forall>u \<in> set ph. 0 \<le> trait_factor (morphData s) u"
    and het: "0 \<le> hetGeneBonus (pricingRules (morphData s))"
    and proven: "0 \<le> provenBreederBonus (pricingRules (morphData s))"
    and spm: "0 \<le> js_or (map_of (speciesMultipliers (pricingRules (morphData s))) (species s)) 1"
    and combo: "\<forall>c c'. find (combo_matches ph) (map snd (comboMorphs (morphData s))) = Some c \<longrightarrow>
                  find (combo_matches ph') (map snd (comboMorphs (morphData s))) = Some c' \<longrightarrow>
                  js_or (basePrice c) 0 \<le> js_or (basePrice c') 0"
  shows "\<exists>p p'. fst (calculatePrice s) = Inr p \<and> fst (calculatePrice s') = Inr p' \<and> p \<le> p' \<and>
           fst (getPhenotype s) = Inr ph \<and> fst (getPhenotype s') = Inr ph'"
proof -
  let ?gs = "genes (morphData s)"
  let ?cs = "map snd (comboMorphs (morphData s))"
  let ?hets = "concat (map (entry_hets ?gs ph) (es1 @ es2))"
  let ?p2 = "rarity_loop (morphData s) (start_price s) ph"
  let ?p2' = "rarity_loop (morphData s) (start_price s) ph'"
  have ws12: "well_shaped ?gs es1" "well_shaped ?gs es2"
    using ws by (simp_all add: g0 well_shaped_append)
  have ws': "well_shaped ?gs (es1 @ (g, Arr alleles) # es2)"
    using ws12 by (simp add: well_shaped_def)
  have g1: "fst (getPhenotype s) = Inr ph"
    using getPhenotype_fresh [OF fresh ws] by (simp add: g0 ph old_traits)
  have g2: "fst (getPhenotype s') = Inr ph'"
    using getPhenotype_fresh [of s'] fresh ws' by (simp add: s' ph' tr)
  have sets: "set ph' = insert t (set ph)" by (auto simp: ph ph')
  have h1: "hets_loop ?gs ph (genotype s) [] = Inr ?hets"
    using hets_loop_ok [OF ws, of ph "[]"] by (simp add: g0 old_hets)
  have same: "map (entry_hets ?gs ph') es = map (entry_hets ?gs ph) es"
    if "set es \<subseteq> set (es1 @ es2)" for es
  proof (rule map_cong [OF refl])
    fix entry assume "entry \<in> set es"
    with that other have "t \<noteq> fst entry" by auto
    then have "fst entry \<in> set ph' \<longleftrightarrow> fst entry \<in> set ph" by (auto simp: sets)
    then show "entry_hets ?gs ph' entry = entry_hets ?gs ph entry"
      by (rule entry_hets_cong)
  qed
  have none: "entry_hets ?gs ph' (g, Arr alleles) = []"
    by (rule expressed_entry_no_het) (simp add: tr)
  have h2: "hets_loop ?gs ph' (es1 @ (g, Arr alleles) # es2) [] = Inr ?hets"
    using hets_loop_ok [OF ws', of ph' "[]"] same [of es1] same [of es2] by (simp add: none)
  have c1: "fst (calculatePrice s) =
      Inr (finish_price s (length ?hets) (combo_price_loop ph ?p2 ?cs))"
    using h1 by (simp add: calculatePrice_fst g1)
  have c2: "fst (calculatePrice s') =
      Inr (finish_price s (length ?hets) (combo_price_loop ph' ?p2' ?cs))"
    using h2 by (simp add: calculatePrice_fst g2) (simp add: s' price_parts_genotype)
  have nn: "0 \<le> ?p2"
    using start prod_list_nonneg [of "map (trait_factor (morphData s)) ph"] factors
    by (simp add: rarity_loop_prod)
  have p2': "?p2' = ?p2 * trait_factor (morphData s) t"
    by (simp add: rarity_loop_prod ph ph')
  have "?p2 * 1 \<le> ?p2 * trait_factor (morphData s) t" using factor nn by (rule mult_left_mono)
  then have le2: "?p2 \<le> ?p2'" by (simp add: p2')
  with nn have nn': "0 \<le> ?p2'" by simp
  have le3: "combo_price_loop ph ?p2 ?cs \<le> combo_price_loop ph' ?p2' ?cs"
  proof (cases "find (combo_matches ph) ?cs")
    case None
    then have "combo_price_loop ph ?p2 ?cs = ?p2" by (simp add: combo_price_loop_find)
    with le2 combo_price_loop_ge [of ?p2' ph' ?cs] show ?thesis by simp
  next
    case (Some c)
    then have "c \<in> set ?cs" "combo_matches ph c" by (auto simp: find_Some_iff)
    then have "\<exists>x \<in> set ?cs. combo_matches ph' x"
      using combo_matches_mono [of ph ph' c] sets by auto
    then obtain c' where c': "find (combo_matches ph') ?cs = Some c'"
      by (cases "find (combo_matches ph') ?cs") (auto simp: find_None_iff)
    from combo Some c' have fl: "js_or (basePrice c) 0 \<le> js_or (basePrice c') 0" by blast
    have "max ?p2 (js_or (basePrice c) 0) \<le> max ?p2' (js_or (basePrice c') 0)"
      using le2 fl by (rule max.mono)
    then have "max ?p2 (js_or (basePrice c) ?p2) \<le> max ?p2' (js_or (basePrice c') ?p2')"
      by (simp only: override_floor [OF nn] override_floor [OF nn'])
    then show ?thesis by (simp only: combo_price_loop_find Some c' option.case)
  qed
  have "finish_price s (length ?hets) (combo_price_loop ph ?p2 ?cs)
          \<le> finish_price s (length ?hets) (combo_price_loop ph' ?p2' ?cs)"
    using le3 het proven spm by (rule finish_price_mono)
  with c1 c2 g1 g2 show ?thesis by blast
qed

theorem C8_price_monotone_witness:
  "fst (getPhenotype (exampleSnake ''western'' [hom ''albino'', (''axanthic'', Arr [Str ''wild'', Str ''wild''])]))
     = Inr [''albino''] \<and>
   fst (getPhenotype (exampleSnake ''western'' [hom ''albino'', hom ''axanthic'']))
     = Inr [''albino'', ''axanthic''] \<and>
   fst (calculatePrice (exampleSnake ''western'' [hom ''albino'', (''axanthic'', Arr [Str ''wild'', Str ''wild''])]))
     = Inr 150 \<and>
   fst (calculatePrice (exampleSnake ''western'' [hom ''albino'', hom ''axanthic''])) = Inr 800 \<and>
   (\<exists>p p'. fst (calculatePrice (exampleSnake ''western''
                 [hom ''albino'', (''axanthic'', Arr [Str ''wild'', Str ''wild''])])) = Inr p \<and>
      fst (calculatePrice (exampleSnake ''western'' [hom ''albino'', hom ''axanthic''])) = Inr p' \<and>
      p \<le> p')"
proof -
  let ?old = "(''axanthic'', Arr [Str ''wild'', Str ''wild''])"
  let ?s = "exampleSnake ''western'' [hom ''albino'', ?old]"
  let ?s' = "exampleSnake ''western'' [hom ''albino'', hom ''axanthic'']"
  let ?al = "[Str ''axanthic'', Str ''axanthic'']"
  let ?gs = "genes (morphData ?s)"
  have fresh: "phenotype_cache ?s = None" by (simp add: example_defs)
  have g0: "genotype ?s = [hom ''albino''] @ [?old] @ []" by (simp add: example_defs)
  have s': "?s' = ?s\<lparr>genotype := [hom ''albino''] @ (''axanthic'', Arr ?al) # []\<rparr>"
    by (simp add: exampleSnake_def Snake_def hom_def)
  have ws: "well_shaped ?gs (genotype ?s)"
    by (simp add: example_defs well_shaped_def)
  have ph: "[''albino''] = concat (map (entry_traits ?gs) ([hom ''albino''] @ []))"
    by (simp add: example_defs entry_traits_def phenotype_step_def)
  have ph': "[''albino'', ''axanthic''] =
      concat (map (entry_traits ?gs) [hom ''albino'']) @ ''axanthic'' # concat (map (entry_traits ?gs) [])"
    by (simp add: example_defs entry_traits_def phenotype_step_def)
  have old_traits: "concat (map (entry_traits ?gs) [?old]) = []"
    by (simp add: example_defs entry_traits_def phenotype_step_def)
  have old_hets: "concat (map (entry_hets ?gs [''albino'']) [?old]) = []"
    by (simp add: example_defs entry_hets_def hets_step_def)
  have other: "''axanthic'' \<notin> fst ` set ([hom ''albino''] @ [])" by (simp add: hom_def)
  have tr: "entry_traits ?gs (''axanthic'', Arr ?al) = [''axanthic'']"
    by (simp add: example_defs entry_traits_def phenotype_step_def)
  have factor: "1 \<le> trait_factor (morphData ?s) ''axanthic''"
    by (simp add: example_defs trait_factor_def js_or_def)
  have start: "0 \<le> start_price ?s" by (simp add: example_defs start_price_def js_or_def)
  have factors: "\<forall>u \<in> set [''albino'']. 0 \<le> trait_factor (morphData ?s) u"
    by (simp add: example_defs trait_factor_def js_or_def)
  have het: "0 \<le> hetGeneBonus (pricingRules (morphData ?s))" by (simp add: example_defs)
  have proven: "0 \<le> provenBreederBonus (pricingRules (morphData ?s))" by (simp add: example_defs)
  have spm: "0 \<le> js_or (map_of (speciesMultipliers (pricingRules (morphData ?s))) (species ?s)) 1"
    by (simp add: example_defs js_or_def)
  have combo: "\<forall>c c'. find (combo_matches [''albino'']) (map snd (comboMorphs (morphData ?s))) = Some c \<longrightarrow>
                  find (combo_matches [''albino'', ''axanthic'']) (map snd (comboMorphs (morphData ?s))) = Some c' \<longrightarrow>
                  js_or (basePrice c) 0 \<le> js_or (basePrice c') 0"
    by (simp add: example_defs combo_matches_def)
  note t = C8_price_monotone [OF fresh g0 s' ws ph ph' old_traits old_hets other tr factor start
      factors het proven spm combo]
  have h1: "hets_loop ?gs [''albino''] (genotype ?s) [] = Inr []"
    by (simp add: example_defs hets_step_def)
  have h2: "hets_loop (genes (morphData ?s')) [''albino'', ''axanthic''] (genotype ?s') [] = Inr []"
    by (simp add: example_defs hets_step_def)
  from t have p1: "fst (getPhenotype ?s) = Inr [''albino'']"
    and p2: "fst (getPhenotype ?s') = Inr [''albino'', ''axanthic'']" by blast+
  have c1: "fst (calculatePrice ?s) = Inr 150"
    unfolding calculatePrice_fst p1
    by (simp add: example_defs hets_step_def finish_price_def start_price_def combo_matches_def
        js_or_def Math_round_def)
  have c2: "fst (calculatePrice ?s') = Inr 800"
    unfolding calculatePrice_fst p2
    by (simp add: example_defs hets_step_def finish_price_def start_price_def combo_matches_def
        js_or_def Math_round_def)
  from t p1 p2 c1 c2 show ?thesis by blast
qed

end
